theory Spec2Isabelle
  imports
    Complex_Main
    "HOL-Library.Multiset"
    "HOL-Library.Char_ord"
    "HOL-Library.List_Lexorder"
    "HOL-Library.Product_Lexorder"
begin

section \<open>Strings: the header normalisation of \<open>clean_data\<close>\<close>

text \<open>
  A \<open>char\<close> stands for one code point below 256. \<open>lower_char\<close> is Python's
  \<open>str.lower\<close> on such a code point (A-Z and the upper-case letters of Latin-1 move up
  by 32), \<open>isspace\<close> is the white space that \<open>str.strip()\<close> removes.
\<close>

definition lower_char :: "char \<Rightarrow> char" where
  "lower_char c =
     (let n = (of_char c :: nat)
      in if (65 \<le> n \<and> n \<le> 90) \<or> (192 \<le> n \<and> n \<le> 214) \<or> (216 \<le> n \<and> n \<le> 222)
         then char_of (n + 32) else c)"

definition lower :: "string \<Rightarrow> string" where
  "lower s = map lower_char s"

definition replace_space :: "string \<Rightarrow> string" where
  "replace_space s = map (\<lambda>c. if c = CHR '' '' then CHR ''_'' else c) s"

definition isspace :: "char \<Rightarrow> bool" where
  "isspace c =
     (let n = (of_char c :: nat)
      in (9 \<le> n \<and> n \<le> 13) \<or> (28 \<le> n \<and> n \<le> 32) \<or> n = 133 \<or> n = 160)"

definition strip :: "string \<Rightarrow> string" where
  "strip s = rev (dropWhile isspace (rev (dropWhile isspace s)))"

text \<open>Line 131: \<^verbatim>\<open>col.lower().replace(' ', '_').strip()\<close>, in that order.\<close>

definition normalize_col :: "string \<Rightarrow> string" where
  "normalize_col col = strip (replace_space (lower col))"

definition required_columns :: "string list" where
  "required_columns =
     [''date'', ''platform'', ''sentiment'', ''location'', ''engagements'', ''media_type'']"

fun join :: "string \<Rightarrow> string list \<Rightarrow> string" where
  "join sep [] = []"
| "join sep [x] = x"
| "join sep (x # y # ys) = x @ sep @ join sep (y # ys)"

section \<open>Data frames\<close>

text \<open>
  A value of a frame read by \<open>pd.read_csv\<close>: missing (\<open>NaN\<close>, which also stands for
  \<open>NaT\<close>), a number, a string, or, after \<open>pd.to_datetime\<close>, a timestamp in nanoseconds
  since the epoch. An integer column holds 64-bit integers; a column with a missing value
  or a fraction holds floats, which are the rationals they denote (rounding to binary64
  is outside the model).
\<close>

datatype number = IntV int | FloatV rat | PosInf | NegInf

datatype cell = NaN | NumV number | Str string | Time int

type_synonym row = "cell list"

record frame =
  columns :: "string list"
  rows :: "row list"

text \<open>
  The library routines whose results the source takes as they come; the repository pins
  no version of the library.
  \<^item> \<open>to_datetime\<close> is \<^verbatim>\<open>pd.to_datetime(..., errors='coerce')\<close> on one value
    (\<open>None\<close> is \<open>NaT\<close>);
  \<^item> \<open>parse_number\<close> is \<^verbatim>\<open>pd.to_numeric(..., errors='coerce')\<close> on one string
    (\<open>None\<close> is \<open>NaN\<close>);
  \<^item> \<open>to_str\<close> is \<^verbatim>\<open>astype(str)\<close> on a number or a timestamp;
  \<^item> \<open>missing_to_str\<close> is \<^verbatim>\<open>astype(str)\<close> on a missing value: the string
    \<open>nan\<close> in pandas 2, and \<open>None\<close>, the value stays missing, in pandas 3;
  \<^item> \<open>overflow_cast\<close> is what the cast of \<^verbatim>\<open>astype(int)\<close> makes of a float outside
    the range of 64-bit integers, which the platform decides;
  \<^item> \<open>argsort\<close> is the index sort behind \<^verbatim>\<open>sort_values\<close>, which the source calls
    with the default \<^verbatim>\<open>kind='quicksort'\<close>.
\<close>

record pandas =
  to_datetime :: "cell \<Rightarrow> int option"
  parse_number :: "string \<Rightarrow> number option"
  to_str :: "cell \<Rightarrow> string"
  missing_to_str :: "string option"
  overflow_cast :: "rat \<Rightarrow> int"
  argsort :: "int list \<Rightarrow> nat list"

text \<open>A 64-bit integer: the value an integer has after wrapping round.\<close>

definition wrap64 :: "int \<Rightarrow> int" where
  "wrap64 x = (x + 2 ^ 63) mod 2 ^ 64 - 2 ^ 63"

text \<open>
  What every sorting kind of the library guarantees: the result lists each position once
  and the keys read in that order ascend. Nothing is said about equal keys.
\<close>

definition argsort_ok :: "(int list \<Rightarrow> nat list) \<Rightarrow> bool" where
  "argsort_ok f \<longleftrightarrow>
     (\<forall>ks. mset (f ks) = mset [0..<length ks] \<and> sorted (map (\<lambda>i. ks ! i) (f ks)))"

datatype exn = KeyError string | NotASeries string | NonFiniteToInt

text \<open>
  A short row reads as one padded with \<open>NaN\<close>, as \<open>read_csv\<close> pads a short line.
\<close>

definition cell_at :: "row \<Rightarrow> nat \<Rightarrow> cell" where
  "cell_at r k = (if k < length r then r ! k else NaN)"

definition set_cell :: "row \<Rightarrow> nat \<Rightarrow> cell \<Rightarrow> row" where
  "set_cell r k v =
     (if k < length r then r[k := v] else r @ replicate (k - length r) NaN @ [v])"

fun index_of :: "string \<Rightarrow> string list \<Rightarrow> nat" where
  "index_of x [] = 0"
| "index_of x (y # ys) = (if x = y then 0 else Suc (index_of x ys))"

text \<open>
  \<^verbatim>\<open>df[name]\<close> used as one column: an absent label raises \<open>KeyError\<close>; a label carried by
  two columns selects a frame, on which \<^verbatim>\<open>pd.to_datetime\<close>, \<^verbatim>\<open>pd.to_numeric\<close>,
  \<^verbatim>\<open>.str\<close> and \<^verbatim>\<open>groupby\<close> raise.
\<close>

definition series_pos :: "string list \<Rightarrow> string \<Rightarrow> exn + nat" where
  "series_pos cols name =
     (if count_list cols name = 0 then Inl (KeyError name)
      else if count_list cols name = 1 then Inr (index_of name cols)
      else Inl (NotASeries name))"

definition cell_of :: "string list \<Rightarrow> string \<Rightarrow> row \<Rightarrow> cell" where
  "cell_of cols name r = cell_at r (index_of name cols)"

text \<open>A conversion applied to a whole column: the first value that raises ends it.\<close>

primrec traverse :: "('a \<Rightarrow> exn + 'b) \<Rightarrow> 'a list \<Rightarrow> exn + 'b list" where
  "traverse f [] = Inr []"
| "traverse f (x # xs) =
     (case f x of
        Inl e \<Rightarrow> Inl e
      | Inr y \<Rightarrow> (case traverse f xs of Inl e \<Rightarrow> Inl e | Inr ys \<Rightarrow> Inr (y # ys)))"

text \<open>
  The rows at the given positions, in that order. The positions are those an index sort
  returns for the keys of these rows, which under \<open>argsort_ok\<close> are positions of the
  list.
\<close>

definition take_rows :: "'a list \<Rightarrow> nat list \<Rightarrow> 'a list" where
  "take_rows xs idx = map (\<lambda>i. xs ! i) idx"

section \<open>\<open>clean_data\<close>\<close>

definition coerce_date :: "pandas \<Rightarrow> cell \<Rightarrow> cell" where
  "coerce_date L c = (case to_datetime L c of None \<Rightarrow> NaN | Some t \<Rightarrow> Time t)"

definition to_numeric :: "pandas \<Rightarrow> cell \<Rightarrow> number option" where
  "to_numeric L c =
     (case c of
        NaN \<Rightarrow> None
      | NumV n \<Rightarrow> Some n
      | Str s \<Rightarrow> parse_number L s
      | Time t \<Rightarrow> Some (IntV t))"

definition fillna0 :: "number option \<Rightarrow> number" where
  "fillna0 v = (case v of None \<Rightarrow> IntV 0 | Some n \<Rightarrow> n)"

definition truncate :: "rat \<Rightarrow> int" where
  "truncate q = (if q < 0 then \<lceil>q\<rceil> else \<lfloor>q\<rfloor>)"

definition in_int64 :: "int \<Rightarrow> bool" where
  "in_int64 z \<longleftrightarrow> - (2 ^ 63) \<le> z \<and> z < 2 ^ 63"

text \<open>
  \<^verbatim>\<open>astype(int)\<close>, a cast to 64-bit integers: an integer of an unsigned column wraps
  round, a float is cut towards zero where that fits and is otherwise what the platform's
  cast gives, a non-finite float raises.
\<close>

fun astype_int :: "pandas \<Rightarrow> number \<Rightarrow> exn + int" where
  "astype_int L (IntV i) = Inr (wrap64 i)"
| "astype_int L (FloatV q) =
     Inr (if in_int64 (truncate q) then truncate q else wrap64 (overflow_cast L q))"
| "astype_int L PosInf = Inl NonFiniteToInt"
| "astype_int L NegInf = Inl NonFiniteToInt"

text \<open>\<^verbatim>\<open>astype(str)\<close> on one value; \<open>None\<close> is a value that stays missing.\<close>

definition astype_str :: "pandas \<Rightarrow> cell \<Rightarrow> string option" where
  "astype_str L c =
     (case c of Str s \<Rightarrow> Some s | NaN \<Rightarrow> missing_to_str L | _ \<Rightarrow> Some (to_str L c))"

text \<open>\<^verbatim>\<open>.str.lower()\<close> on one value: a missing value stays missing.\<close>

definition str_lower :: "string option \<Rightarrow> cell" where
  "str_lower v = (case v of None \<Rightarrow> NaN | Some s \<Rightarrow> Str (lower s))"

fun time_of :: "cell \<Rightarrow> int" where
  "time_of (Time t) = t"
| "time_of _ = 0"

text \<open>Line 140 and line 141 on one row, which keeps its index label \<open>i\<close>.\<close>

definition date_step :: "pandas \<Rightarrow> nat \<Rightarrow> nat \<times> row \<Rightarrow> nat \<times> row" where
  "date_step L d ir = (fst ir, set_cell (snd ir) d (coerce_date L (cell_at (snd ir) d)))"

definition has_date :: "nat \<Rightarrow> nat \<times> row \<Rightarrow> bool" where
  "has_date d ir \<longleftrightarrow> cell_at (snd ir) d \<noteq> NaN"

text \<open>Line 144 on one row.\<close>

definition engagements_step :: "pandas \<Rightarrow> nat \<Rightarrow> nat \<times> row \<Rightarrow> exn + nat \<times> row" where
  "engagements_step L g ir =
     (case astype_int L (fillna0 (to_numeric L (cell_at (snd ir) g))) of
        Inl e \<Rightarrow> Inl e
      | Inr k \<Rightarrow> Inr (fst ir, set_cell (snd ir) g (NumV (IntV k))))"

text \<open>Line 147 on one row.\<close>

definition sentiment_step :: "pandas \<Rightarrow> nat \<Rightarrow> nat \<times> row \<Rightarrow> nat \<times> row" where
  "sentiment_step L s ir =
     (fst ir, set_cell (snd ir) s (str_lower (astype_str L (cell_at (snd ir) s))))"

text \<open>
  Lines 131 to 147: the rows before the sort, each with the index label it had in the
  upload. \<open>Inr None\<close> is \<^verbatim>\<open>return None\<close>, \<open>Inl\<close> an exception raised on the way.
\<close>

definition normalized_rows :: "pandas \<Rightarrow> frame \<Rightarrow> exn + (nat \<times> row) list option" where
  "normalized_rows L df =
     (let cols = map normalize_col (columns df) in
      if \<not> (\<forall>c \<in> set required_columns. c \<in> set cols) then Inr None
      else
        (case series_pos cols ''date'' of Inl e \<Rightarrow> Inl e | Inr d \<Rightarrow>
        (let kept = filter (has_date d) (map (date_step L d) (enumerate 0 (rows df))) in
        (case series_pos cols ''engagements'' of Inl e \<Rightarrow> Inl e | Inr g \<Rightarrow>
        (case traverse (engagements_step L g) kept of Inl e \<Rightarrow> Inl e | Inr counted \<Rightarrow>
        (case series_pos cols ''sentiment'' of Inl e \<Rightarrow> Inl e | Inr s \<Rightarrow>
           Inr (Some (map (sentiment_step L s) counted))))))))"

text \<open>Line 150, \<^verbatim>\<open>df.sort_values('date')\<close>, before \<^verbatim>\<open>reset_index(drop=True)\<close>.\<close>

definition sort_values_date :: "pandas \<Rightarrow> nat \<Rightarrow> (nat \<times> row) list \<Rightarrow> (nat \<times> row) list" where
  "sort_values_date L d irs =
     take_rows irs (argsort L (map (\<lambda>ir. time_of (cell_at (snd ir) d)) irs))"

definition clean_frame :: "pandas \<Rightarrow> frame \<Rightarrow> exn + (nat \<times> row) list option" where
  "clean_frame L df =
     (case normalized_rows L df of
        Inl e \<Rightarrow> Inl e
      | Inr None \<Rightarrow> Inr None
      | Inr (Some irs) \<Rightarrow>
          Inr (Some (sort_values_date L (index_of ''date'' (map normalize_col (columns df))) irs)))"

definition clean_data :: "pandas \<Rightarrow> frame \<Rightarrow> exn + frame option" where
  "clean_data L df =
     (case clean_frame L df of
        Inl e \<Rightarrow> Inl e
      | Inr None \<Rightarrow> Inr None
      | Inr (Some irs) \<Rightarrow>
          Inr (Some \<lparr>columns = map normalize_col (columns df), rows = map snd irs\<rparr>))"


section \<open>Aggregates\<close>

text \<open>
  The engagements of a row of the cleaned table, where the column holds integers.
\<close>

fun int_of_cell :: "cell \<Rightarrow> int" where
  "int_of_cell (NumV (IntV k)) = k"
| "int_of_cell _ = 0"

definition ns_per_day :: int where
  "ns_per_day = 86400000000000"

text \<open>\<^verbatim>\<open>.dt.date\<close>: the calendar day of a timestamp, as a day number.\<close>

definition day_of :: "int \<Rightarrow> int" where
  "day_of t = t div ns_per_day"

text \<open>
  \<^verbatim>\<open>groupby\<close> lists its groups in the order of their keys (its default \<^verbatim>\<open>sort=True\<close>):
  numbers before strings, numbers by value, strings by code points.
\<close>

fun cell_rank :: "cell \<Rightarrow> nat \<times> rat \<times> string" where
  "cell_rank (NumV NegInf) = (0, 0, [])"
| "cell_rank (NumV (IntV i)) = (1, of_int i, [])"
| "cell_rank (NumV (FloatV q)) = (1, q, [])"
| "cell_rank (NumV PosInf) = (2, 0, [])"
| "cell_rank (Time t) = (3, of_int t, [])"
| "cell_rank (Str s) = (4, 0, s)"
| "cell_rank NaN = (5, 0, [])"

text \<open>
  \<^verbatim>\<open>groupby(key)[value].sum()\<close> on the pairs (key, value) of the rows; the values are
  added as 64-bit integers, so a sum wraps round.
\<close>

definition groupby_sum :: "('k \<Rightarrow> 'o::linorder) \<Rightarrow> ('k \<times> int) list \<Rightarrow> ('k \<times> int) list" where
  "groupby_sum rank kvs =
     map (\<lambda>k. (k, wrap64 (sum_list (map snd (filter (\<lambda>kv. fst kv = k) kvs)))))
       (sort_key rank (remdups (map fst kvs)))"

text \<open>
  The index order of \<^verbatim>\<open>sort_values(ascending=False)\<close>: the library reverses the keys,
  sorts them ascending and reverses the outcome.
\<close>

definition nargsort_desc :: "pandas \<Rightarrow> int list \<Rightarrow> nat list" where
  "nargsort_desc L ks = rev (map (\<lambda>j. length ks - 1 - j) (argsort L (rev ks)))"

definition sort_values_desc :: "pandas \<Rightarrow> ('k \<times> int) list \<Rightarrow> ('k \<times> int) list" where
  "sort_values_desc L kvs = take_rows kvs (nargsort_desc L (map snd kvs))"

text \<open>The values of a list in the order of their first occurrence.\<close>

definition unique :: "'a list \<Rightarrow> 'a list" where
  "unique xs = rev (remdups (rev xs))"

text \<open>
  \<^verbatim>\<open>value_counts()\<close>: missing values are left out, one entry for each value with the
  number of its occurrences, the most frequent first. A count is a 64-bit integer in the
  library; it is below \<open>2\<^sup>6\<^sup>3\<close> for every table that has fewer rows than that.
\<close>

definition value_counts :: "pandas \<Rightarrow> cell list \<Rightarrow> (cell \<times> int) list" where
  "value_counts L xs =
     (let vs = filter (\<lambda>c. c \<noteq> NaN) xs
      in sort_values_desc L (map (\<lambda>k. (k, int (count_list vs k))) (unique vs)))"

definition column_values :: "frame \<Rightarrow> string \<Rightarrow> exn + cell list" where
  "column_values t name =
     (case series_pos (columns t) name of
        Inl e \<Rightarrow> Inl e
      | Inr p \<Rightarrow> Inr (map (\<lambda>r. cell_at r p) (rows t)))"

text \<open>\<^verbatim>\<open>df[name].value_counts()\<close>, lines 158, 236, 324 and 369.\<close>

definition counts_of :: "pandas \<Rightarrow> frame \<Rightarrow> string \<Rightarrow> exn + (cell \<times> int) list" where
  "counts_of L t name =
     (case column_values t name of Inl e \<Rightarrow> Inl e | Inr xs \<Rightarrow> Inr (value_counts L xs))"

text \<open>
  \<^verbatim>\<open>df.groupby(name)['engagements'].sum().sort_values(ascending=False)\<close>, lines 212, 263,
  357 and 381; rows with a missing key belong to no group.
\<close>

definition engagements_by :: "pandas \<Rightarrow> frame \<Rightarrow> string \<Rightarrow> exn + (cell \<times> int) list" where
  "engagements_by L t name =
     (case series_pos (columns t) name of Inl e \<Rightarrow> Inl e | Inr p \<Rightarrow>
     (case series_pos (columns t) ''engagements'' of Inl e \<Rightarrow> Inl e | Inr g \<Rightarrow>
        Inr (sort_values_desc L (groupby_sum cell_rank
          (map (\<lambda>r. (cell_at r p, int_of_cell (cell_at r g)))
             (filter (\<lambda>r. cell_at r p \<noteq> NaN) (rows t)))))))"

text \<open>
  \<^verbatim>\<open>df.groupby(df['date'].dt.date)['engagements'].sum()\<close>, lines 187 and 337.
\<close>

definition engagement_by_date :: "frame \<Rightarrow> exn + (int \<times> int) list" where
  "engagement_by_date t =
     (case series_pos (columns t) ''date'' of Inl e \<Rightarrow> Inl e | Inr d \<Rightarrow>
     (case series_pos (columns t) ''engagements'' of Inl e \<Rightarrow> Inl e | Inr g \<Rightarrow>
        Inr (groupby_sum (\<lambda>k. k)
          (map (\<lambda>r. (day_of (time_of (cell_at r d)), int_of_cell (cell_at r g)))
             (filter (\<lambda>r. cell_at r d \<noteq> NaN) (rows t))))))"

text \<open>The tables handed to the five charts.\<close>

definition create_sentiment_chart :: "pandas \<Rightarrow> frame \<Rightarrow> exn + (cell \<times> int) list" where
  "create_sentiment_chart L t = counts_of L t ''sentiment''"

definition create_engagement_trend_chart :: "frame \<Rightarrow> exn + (int \<times> int) list" where
  "create_engagement_trend_chart t = engagement_by_date t"

definition create_platform_engagements_chart :: "pandas \<Rightarrow> frame \<Rightarrow> exn + (cell \<times> int) list" where
  "create_platform_engagements_chart L t = engagements_by L t ''platform''"

definition create_media_type_mix_chart :: "pandas \<Rightarrow> frame \<Rightarrow> exn + (cell \<times> int) list" where
  "create_media_type_mix_chart L t = counts_of L t ''media_type''"

definition head5 :: "exn + 'a list \<Rightarrow> exn + 'a list" where
  "head5 v = (case v of Inl e \<Rightarrow> Inl e | Inr xs \<Rightarrow> Inr (take 5 xs))"

definition create_top_locations_chart :: "pandas \<Rightarrow> frame \<Rightarrow> exn + (cell \<times> int) list" where
  "create_top_locations_chart L t = head5 (engagements_by L t ''location'')"

text \<open>The dictionaries that \<open>main\<close> puts into the prompts, lines 324, 357, 369 and 381.\<close>

definition sentiment_counts :: "pandas \<Rightarrow> frame \<Rightarrow> exn + (cell \<times> int) list" where
  "sentiment_counts L t = counts_of L t ''sentiment''"

definition platform_engagements :: "pandas \<Rightarrow> frame \<Rightarrow> exn + (cell \<times> int) list" where
  "platform_engagements L t = head5 (engagements_by L t ''platform'')"

definition media_type_counts :: "pandas \<Rightarrow> frame \<Rightarrow> exn + (cell \<times> int) list" where
  "media_type_counts L t = counts_of L t ''media_type''"

definition top_locations :: "pandas \<Rightarrow> frame \<Rightarrow> exn + (cell \<times> int) list" where
  "top_locations L t = head5 (engagements_by L t ''location'')"


section \<open>The page: \<open>main\<close>\<close>

text \<open>
  What the page shows for one upload, in order: the tables of the charts drawn, the
  prompts sent to the text service, the error messages, and the exception that ended the
  run if one did. Headings and notices are left out. A prompt is the f-string of the
  source: its fixed text and the dictionary placed in it.
\<close>

datatype chart =
    Pie string "(cell \<times> int) list"
  | Line string "(int \<times> int) list"
  | Bar string "(cell \<times> int) list"

datatype piece = Text string | Dict "(cell \<times> int) list"

type_synonym prompt = "piece list"

datatype event = Plot chart | Gemini prompt | StError string | Failed exn

definition missing_message :: string where
  "missing_message =
     ''Missing one or more required columns. Please ensure your CSV has: ''
       @ join '', '' required_columns"

definition failed_message :: string where
  "failed_message =
     ''Data cleaning failed. Please check your CSV file format and column names.''"

definition sentiment_prompt :: "(cell \<times> int) list \<Rightarrow> prompt" where
  "sentiment_prompt d =
     [Text ''Based on the following sentiment counts from media data: '', Dict d,
      Text ''. Provide top 3 concise insights.'']"

definition fallback_prompt :: prompt where
  "fallback_prompt =
     [Text (''No engagement data available. Provide top 3 general insights about ''
        @ ''engagement trends in media analysis.'')]"

definition platform_prompt :: "(cell \<times> int) list \<Rightarrow> prompt" where
  "platform_prompt d =
     [Text ''Based on platform engagements: '', Dict d,
      Text ''. Provide top 3 concise insights.'']"

definition media_type_prompt :: "(cell \<times> int) list \<Rightarrow> prompt" where
  "media_type_prompt d =
     [Text ''Based on media type counts: '', Dict d,
      Text ''. Provide top 3 concise insights.'']"

definition location_prompt :: "(cell \<times> int) list \<Rightarrow> prompt" where
  "location_prompt d =
     [Text ''Based on top 5 locations by engagement: '', Dict d,
      Text ''. Provide top 3 concise insights.'']"

text \<open>
  Lines 337 to 345. \<^verbatim>\<open>reset_index()\<close> names the two columns \<^verbatim>\<open>date\<close> and
  \<^verbatim>\<open>engagements\<close>, so on a table with a row line 341, which reads
  \<^verbatim>\<open>iloc[0]['Total Engagements']\<close>, raises; only the empty table gets a prompt.
\<close>

definition trend_prompt :: "frame \<Rightarrow> exn + prompt" where
  "trend_prompt t =
     (case engagement_by_date t of
        Inl e \<Rightarrow> Inl e
      | Inr agg \<Rightarrow>
          if agg \<noteq> [] then Inl (KeyError ''Total Engagements'') else Inr fallback_prompt)"

definition step :: "('a \<Rightarrow> event) \<Rightarrow> exn + 'a \<Rightarrow> exn + event" where
  "step f v = (case v of Inl e \<Rightarrow> Inl e | Inr x \<Rightarrow> Inr (f x))"

text \<open>The statements run in order; the first exception ends the run (line 390).\<close>

fun run_steps :: "(exn + event) list \<Rightarrow> event list" where
  "run_steps [] = []"
| "run_steps (Inl e # rest) = [Failed e]"
| "run_steps (Inr ev # rest) = ev # run_steps rest"

definition sections :: "pandas \<Rightarrow> frame \<Rightarrow> (exn + event) list" where
  "sections L t =
     [step (\<lambda>d. Plot (Pie ''Sentiment Breakdown'' d)) (create_sentiment_chart L t),
      step (\<lambda>d. Gemini (sentiment_prompt d)) (sentiment_counts L t),
      step (\<lambda>d. Plot (Line ''Engagement Trend Over Time'' d)) (create_engagement_trend_chart t),
      step Gemini (trend_prompt t),
      step (\<lambda>d. Plot (Bar ''Platform Engagements'' d)) (create_platform_engagements_chart L t),
      step (\<lambda>d. Gemini (platform_prompt d)) (platform_engagements L t),
      step (\<lambda>d. Plot (Pie ''Media Type Mix'' d)) (create_media_type_mix_chart L t),
      step (\<lambda>d. Gemini (media_type_prompt d)) (media_type_counts L t),
      step (\<lambda>d. Plot (Bar ''Top 5 Locations by Engagements'' d)) (create_top_locations_chart L t),
      step (\<lambda>d. Gemini (location_prompt d)) (top_locations L t)]"

text \<open>
  Lines 297 to 392 for an upload parsed to \<open>raw_df\<close>. The message of line 136, which
  \<open>clean_data\<close> shows before it returns \<^verbatim>\<open>None\<close>, is listed here before that of
  line 388.
\<close>

definition main :: "pandas \<Rightarrow> frame \<Rightarrow> event list" where
  "main L raw_df =
     (case clean_data L raw_df of
        Inl e \<Rightarrow> [Failed e]
      | Inr None \<Rightarrow> [StError missing_message, StError failed_message]
      | Inr (Some t) \<Rightarrow> run_steps (sections L t))"


fun prompts :: "event list \<Rightarrow> prompt list" where
  "prompts [] = []"
| "prompts (Gemini p # es) = p # prompts es"
| "prompts (e # es) = prompts es"

section \<open>Sample library behaviour and sample uploads\<close>

text \<open>
  An index sort that meets \<open>argsort_ok\<close> and keeps equal keys in the order of the
  input, as the library's sort does on up to 17 keys.
\<close>

definition stable_argsort :: "int list \<Rightarrow> nat list" where
  "stable_argsort ks = map fst (sort_key snd (enumerate 0 ks))"

text \<open>
  The index sort of numpy for \<^verbatim>\<open>kind='quicksort'\<close> on timestamps (\<open>aquicksort\<close> of
  \<open>npysort/quicksort.cpp\<close>): on the index array \<open>a\<close> and the keys \<open>v\<close>, a part of
  more than 17 positions is split round the median of its first, middle and last key, the
  larger half is put on a stack, and a part of at most 17 positions is sorted by
  insertion. The loops of the code run on a count of steps here; \<open>None\<close> stands for a
  run that leaves the array, that uses up the count, or that reaches the depth at which
  the code turns to heap sort, which is not modelled.
\<close>

definition intp_swap :: "nat list \<Rightarrow> nat \<Rightarrow> nat \<Rightarrow> nat list" where
  "intp_swap a i j = a[i := a ! j, j := a ! i]"

definition key_of :: "int list \<Rightarrow> nat list \<Rightarrow> nat \<Rightarrow> int" where
  "key_of v a i = v ! (a ! i)"

text \<open>\<^verbatim>\<open>do { ++pi; } while (v[*pi] < vp);\<close>\<close>

function scan_up :: "int list \<Rightarrow> nat list \<Rightarrow> int \<Rightarrow> nat \<Rightarrow> nat option" where
  "scan_up v a vp qi =
     (if length a \<le> qi + 1 then None
      else if key_of v a (qi + 1) < vp then scan_up v a vp (qi + 1)
      else Some (qi + 1))"
  by pat_completeness auto
termination
  by (relation "measure (\<lambda>(v, a, vp, qi). length a - qi)") auto

text \<open>\<^verbatim>\<open>do { --pj; } while (vp < v[*pj]);\<close>\<close>

fun scan_down :: "int list \<Rightarrow> nat list \<Rightarrow> int \<Rightarrow> nat \<Rightarrow> nat option" where
  "scan_down v a vp 0 = None"
| "scan_down v a vp (Suc qj) =
     (if vp < key_of v a qj then scan_down v a vp qj else Some qj)"

fun partition_loop ::
  "nat \<Rightarrow> int list \<Rightarrow> nat list \<Rightarrow> int \<Rightarrow> nat \<Rightarrow> nat \<Rightarrow> (nat list \<times> nat) option" where
  "partition_loop 0 v a vp qi qj = None"
| "partition_loop (Suc n) v a vp qi qj =
     (case scan_up v a vp qi of
        None \<Rightarrow> None
      | Some qi' \<Rightarrow>
          (case scan_down v a vp qj of
             None \<Rightarrow> None
           | Some qj' \<Rightarrow>
               if qj' \<le> qi' then Some (a, qi')
               else partition_loop n v (intp_swap a qi' qj') vp qi' qj'))"

definition quick_partition ::
  "int list \<Rightarrow> nat list \<Rightarrow> nat \<Rightarrow> nat \<Rightarrow> (nat list \<times> nat) option" where
  "quick_partition v a pl pr =
     (let pm = pl + (pr - pl) div 2;
          a1 = (if key_of v a pm < key_of v a pl then intp_swap a pm pl else a);
          a2 = (if key_of v a1 pr < key_of v a1 pm then intp_swap a1 pr pm else a1);
          a3 = (if key_of v a2 pm < key_of v a2 pl then intp_swap a2 pm pl else a2);
          vp = key_of v a3 pm;
          a4 = intp_swap a3 pm (pr - 1)
      in case partition_loop (length a) v a4 vp pl (pr - 1) of
           None \<Rightarrow> None
         | Some (a5, qi) \<Rightarrow> Some (intp_swap a5 qi (pr - 1), qi))"

text \<open>\<^verbatim>\<open>while (pj > pl && vp < v[*pk]) { *pj-- = *pk--; }\<close>\<close>

fun shift_down :: "int list \<Rightarrow> int \<Rightarrow> nat \<Rightarrow> nat list \<Rightarrow> nat \<Rightarrow> nat list \<times> nat" where
  "shift_down v vp pl a 0 = (a, 0)"
| "shift_down v vp pl a (Suc pk) =
     (if pl < Suc pk \<and> vp < key_of v a pk
      then shift_down v vp pl (a[Suc pk := a ! pk]) pk
      else (a, Suc pk))"

definition insert_at :: "int list \<Rightarrow> nat \<Rightarrow> nat \<Rightarrow> nat list \<Rightarrow> nat list" where
  "insert_at v pl qi a =
     (let vi = a ! qi
      in case shift_down v (v ! vi) pl a qi of (a', qj) \<Rightarrow> a'[qj := vi])"

definition insertion_sort :: "int list \<Rightarrow> nat list \<Rightarrow> nat \<Rightarrow> nat \<Rightarrow> nat list" where
  "insertion_sort v a pl pr = fold (insert_at v pl) [pl + 1..<pr + 1] a"

text \<open>
  \<^verbatim>\<open>while ((pr - pl) > SMALL_QUICKSORT)\<close> with \<open>SMALL_QUICKSORT\<close> 16: split, put the
  larger half with the lowered depth on the stack, go on with the smaller half.
\<close>

fun partition_while ::
  "nat \<Rightarrow> int list \<Rightarrow> nat list \<Rightarrow> nat \<Rightarrow> nat \<Rightarrow> (nat \<times> nat \<times> int) list \<Rightarrow> int
     \<Rightarrow> (nat list \<times> nat \<times> nat \<times> (nat \<times> nat \<times> int) list \<times> int) option" where
  "partition_while 0 v a pl pr stack cdepth = None"
| "partition_while (Suc n) v a pl pr stack cdepth =
     (if pl + 16 < pr then
        (case quick_partition v a pl pr of
           None \<Rightarrow> None
         | Some (a', qi) \<Rightarrow>
             if qi - pl < pr - qi
             then partition_while n v a' pl (qi - 1) ((qi + 1, pr, cdepth - 1) # stack)
                    (cdepth - 1)
             else partition_while n v a' (qi + 1) pr ((pl, qi - 1, cdepth - 1) # stack)
                    (cdepth - 1))
      else Some (a, pl, pr, stack, cdepth))"

fun sort_loop ::
  "nat \<Rightarrow> int list \<Rightarrow> nat list \<Rightarrow> nat \<Rightarrow> nat \<Rightarrow> (nat \<times> nat \<times> int) list \<Rightarrow> int
     \<Rightarrow> nat list option" where
  "sort_loop 0 v a pl pr stack cdepth = None"
| "sort_loop (Suc n) v a pl pr stack cdepth =
     (if cdepth < 0 then None
      else
        (case partition_while (length a) v a pl pr stack cdepth of
           None \<Rightarrow> None
         | Some (a', pl', pr', stack', cdepth') \<Rightarrow>
             (case stack' of
                [] \<Rightarrow> Some (insertion_sort v a' pl' pr')
              | (l, r, d) # rest \<Rightarrow> sort_loop n v (insertion_sort v a' pl' pr') l r rest d)))"

text \<open>\<open>npy_get_msb\<close>: the position of the highest bit.\<close>

fun get_msb :: "nat \<Rightarrow> nat" where
  "get_msb n = (if n \<le> 1 then 0 else Suc (get_msb (n div 2)))"

definition aquicksort :: "int list \<Rightarrow> nat list option" where
  "aquicksort v =
     (let n = length v
      in if n = 0 then Some []
         else sort_loop n v [0..<n] 0 (n - 1) [] (2 * int (get_msb n)))"

definition quicksort_argsort :: "int list \<Rightarrow> nat list" where
  "quicksort_argsort v = (case aquicksort v of None \<Rightarrow> [] | Some a \<Rightarrow> a)"

text \<open>
  A stand-in for the parsers that knows the strings of the samples below: three dates
  (as day numbers) and no number written as a string.
\<close>

definition sample_to_datetime :: "cell \<Rightarrow> int option" where
  "sample_to_datetime c =
     (case c of
        Str s \<Rightarrow>
          map_option (\<lambda>d. d * ns_per_day)
            (map_of [(''2024-01-01'', 19723), (''2024-01-02'', 19724), (''2024-01-03'', 19725)] s)
      | _ \<Rightarrow> None)"

definition sample_parse_number :: "string \<Rightarrow> number option" where
  "sample_parse_number s = None"

definition sample_to_str :: "cell \<Rightarrow> string" where
  "sample_to_str c = []"

text \<open>The smallest 64-bit integer, which the cast gives on x86-64.\<close>

definition sample_overflow_cast :: "rat \<Rightarrow> int" where
  "sample_overflow_cast q = - (2 ^ 63)"

text \<open>The library as pandas 2 behaves: a missing value becomes the string \<open>nan\<close>.\<close>

definition sample_pandas :: pandas where
  "sample_pandas =
     \<lparr>to_datetime = sample_to_datetime, parse_number = sample_parse_number,
      to_str = sample_to_str, missing_to_str = Some ''nan'',
      overflow_cast = sample_overflow_cast, argsort = stable_argsort\<rparr>"

text \<open>The library as pandas 3 behaves: a missing value stays missing.\<close>

definition sample_pandas_3 :: pandas where
  "sample_pandas_3 =
     \<lparr>to_datetime = sample_to_datetime, parse_number = sample_parse_number,
      to_str = sample_to_str, missing_to_str = None,
      overflow_cast = sample_overflow_cast, argsort = stable_argsort\<rparr>"

text \<open>The library with the index sort of numpy.\<close>

definition quicksort_pandas :: pandas where
  "quicksort_pandas =
     \<lparr>to_datetime = sample_to_datetime, parse_number = sample_parse_number,
      to_str = sample_to_str, missing_to_str = Some ''nan'',
      overflow_cast = sample_overflow_cast, argsort = quicksort_argsort\<rparr>"

definition header :: "string list" where
  "header = [''Date'', ''Platform'', ''Sentiment'', ''Location'', ''Engagements'', ''Media Type'']"

definition canonical :: "string list" where
  "canonical = [''date'', ''platform'', ''sentiment'', ''location'', ''engagements'', ''media_type'']"


text \<open>
  The upload of the example in the specification: two rows of the first of January and
  one row with a date that does not parse.
\<close>

definition spec_upload :: frame where
  "spec_upload = \<lparr>columns = header, rows =
     [[Str ''2024-01-01'', Str ''TikTok'', Str ''Positive'', Str ''NY'', NumV (IntV 10), Str ''video''],
      [Str ''2024-01-01'', Str ''X'', Str ''positive'', Str ''NY'', NumV (IntV 5), Str ''text''],
      [Str ''bad-date'', Str ''X'', Str ''negative'', Str ''LA'', NumV (IntV 7), Str ''image'']]\<rparr>"

text \<open>A header and no row.\<close>

definition empty_upload :: frame where
  "empty_upload = \<lparr>columns = header, rows = []\<rparr>"


text \<open>An upload whose last column is headed by \<open>media_type\<close> between two spaces.\<close>

definition padded_upload :: frame where
  "padded_upload = \<lparr>columns =
       [''Date'', ''Platform'', ''Sentiment'', ''Location'', ''Engagements'', '' media_type ''],
     rows = [[Str ''2024-01-01'', Str ''X'', Str ''positive'', Str ''NY'', NumV (IntV 5),
       Str ''text'']]\<rparr>"



text \<open>An upload where location B comes before location A and both total 5.\<close>

definition tied_upload :: frame where
  "tied_upload = \<lparr>columns = header, rows =
     [[Str ''2024-01-01'', Str ''X'', Str ''positive'', Str ''B'', NumV (IntV 5), Str ''text''],
      [Str ''2024-01-02'', Str ''X'', Str ''positive'', Str ''A'', NumV (IntV 5), Str ''text'']]\<rparr>"

text \<open>An upload with six platforms.\<close>

definition six_platforms_upload :: frame where
  "six_platforms_upload = \<lparr>columns = header, rows =
     [[Str ''2024-01-01'', Str ''P1'', Str ''positive'', Str ''NY'', NumV (IntV 1), Str ''text''],
      [Str ''2024-01-01'', Str ''P2'', Str ''positive'', Str ''NY'', NumV (IntV 6), Str ''text''],
      [Str ''2024-01-01'', Str ''P3'', Str ''positive'', Str ''NY'', NumV (IntV 3), Str ''text''],
      [Str ''2024-01-02'', Str ''P4'', Str ''positive'', Str ''NY'', NumV (IntV 4), Str ''text''],
      [Str ''2024-01-02'', Str ''P5'', Str ''positive'', Str ''NY'', NumV (IntV 5), Str ''text''],
      [Str ''2024-01-02'', Str ''P6'', Str ''positive'', Str ''NY'', NumV (IntV 2), Str ''text'']]\<rparr>"

text \<open>An upload whose rows are not in the order of their dates.\<close>

definition unsorted_upload :: frame where
  "unsorted_upload = \<lparr>columns = header, rows =
     [[Str ''2024-01-03'', Str ''X'', Str ''positive'', Str ''NY'', NumV (IntV 3), Str ''text''],
      [Str ''2024-01-01'', Str ''X'', Str ''positive'', Str ''NY'', NumV (IntV 1), Str ''text''],
      [Str ''2024-01-02'', Str ''X'', Str ''positive'', Str ''NY'', NumV (IntV 2), Str ''text'']]\<rparr>"

text \<open>
  An upload of 18 rows of one date; the engagements of a row are its place in the upload.
\<close>

definition same_day_row :: "nat \<Rightarrow> row" where
  "same_day_row i =
     [Str ''2024-01-01'', Str ''X'', Str ''positive'', Str ''NY'', NumV (IntV (int i)),
      Str ''text'']"

definition same_day_upload :: frame where
  "same_day_upload = \<lparr>columns = header, rows = map same_day_row [0..<18]\<rparr>"

definition same_day_cleaned :: "nat \<Rightarrow> nat \<times> row" where
  "same_day_cleaned i =
     (i, [Time 1704067200000000000, Str ''X'', Str ''positive'', Str ''NY'',
          NumV (IntV (int i)), Str ''text''])"

text \<open>An upload with seven locations, one of them in two rows.\<close>

definition seven_locations_upload :: frame where
  "seven_locations_upload = \<lparr>columns = header, rows =
     [[Str ''2024-01-01'', Str ''X'', Str ''positive'', Str ''L1'', NumV (IntV 3), Str ''text''],
      [Str ''2024-01-01'', Str ''X'', Str ''positive'', Str ''L2'', NumV (IntV 9), Str ''text''],
      [Str ''2024-01-01'', Str ''X'', Str ''positive'', Str ''L3'', NumV (IntV 1), Str ''text''],
      [Str ''2024-01-02'', Str ''X'', Str ''positive'', Str ''L4'', NumV (IntV 7), Str ''text''],
      [Str ''2024-01-02'', Str ''X'', Str ''positive'', Str ''L5'', NumV (IntV 2), Str ''text''],
      [Str ''2024-01-02'', Str ''X'', Str ''positive'', Str ''L6'', NumV (IntV 8), Str ''text''],
      [Str ''2024-01-03'', Str ''X'', Str ''positive'', Str ''L7'', NumV (IntV 5), Str ''text''],
      [Str ''2024-01-03'', Str ''X'', Str ''positive'', Str ''L1'', NumV (IntV 3), Str ''text'']]\<rparr>"

text \<open>An upload with two sentiments in three rows.\<close>

definition two_sentiments_upload :: frame where
  "two_sentiments_upload = \<lparr>columns = header, rows =
     [[Str ''2024-01-01'', Str ''X'', Str ''Positive'', Str ''NY'', NumV (IntV 5), Str ''text''],
      [Str ''2024-01-02'', Str ''X'', Str ''negative'', Str ''NY'', NumV (IntV 6), Str ''text''],
      [Str ''2024-01-03'', Str ''X'', Str ''POSITIVE'', Str ''LA'', NumV (IntV 7), Str ''image'']]\<rparr>"

text \<open>An upload whose second row has no sentiment.\<close>

definition unlabelled_upload :: frame where
  "unlabelled_upload = \<lparr>columns = header, rows =
     [[Str ''2024-01-01'', Str ''X'', Str ''Positive'', Str ''NY'', NumV (IntV 5), Str ''text''],
      [Str ''2024-01-02'', Str ''X'', NaN, Str ''LA'', NumV (IntV 7), Str ''image'']]\<rparr>"

text \<open>
  Rows of one date stand in the order of the upload: of two rows with the same date
  cell the one with the smaller index label comes first.
\<close>

definition upload_order_kept :: "nat \<Rightarrow> (nat \<times> row) list \<Rightarrow> bool" where
  "upload_order_kept d out =
     sorted_wrt (\<lambda>a b. cell_at (snd a) d = cell_at (snd b) d \<longrightarrow> fst a < fst b) out"

section \<open>Columns and cells\<close>

lemma index_of_less: "x \<in> set xs \<Longrightarrow> index_of x xs < length xs"
  by (induction xs) auto

lemma nth_index_of: "x \<in> set xs \<Longrightarrow> xs ! index_of x xs = x"
  by (induction xs) auto

lemma index_of_inject:
  "x \<in> set xs \<Longrightarrow> y \<in> set xs \<Longrightarrow> index_of x xs = index_of y xs \<Longrightarrow> x = y"
  by (metis nth_index_of)

lemma cell_at_set_cell_same: "cell_at (set_cell r k v) k = v"
  by (simp add: cell_at_def set_cell_def nth_append)

lemma cell_at_set_cell_other: "j \<noteq> k \<Longrightarrow> cell_at (set_cell r k v) j = cell_at r j"
  by (auto simp: cell_at_def set_cell_def nth_append nth_Cons')

lemma series_pos_Inr:
  "series_pos cols name = Inr p \<Longrightarrow> name \<in> set cols \<and> p = index_of name cols"
  by (auto simp: series_pos_def count_list_0_iff split: if_splits)

section \<open>The schema check\<close>




text \<open>
  C2. The header \<open>media_type\<close> written between two spaces is renamed to
  \<open>_media_type_\<close>: the spaces have become underscores before \<open>strip\<close> runs. The
  upload is then turned away for want of a \<open>media_type\<close> column. The other two
  spellings are renamed to \<open>media_type\<close>.
\<close>

theorem C2_padded_header_keeps_underscores:
  "normalize_col '' media_type '' = ''_media_type_''
   \<and> normalize_col ''Media Type'' = ''media_type''
   \<and> normalize_col ''MEDIA_TYPE'' = ''media_type''
   \<and> clean_data sample_pandas padded_upload = Inr None"
  by code_simp

section \<open>Sorting by index\<close>

lemma traverse_Inr: "traverse f xs = Inr ys \<Longrightarrow> list_all2 (\<lambda>x y. f x = Inr y) xs ys"
  by (induction xs arbitrary: ys) (auto split: sum.splits)

lemma take_rows_mset:
  assumes "mset idx = mset [0..<length xs]"
  shows "mset (take_rows xs idx) = mset xs"
proof -
  have "mset (take_rows xs idx) = image_mset (\<lambda>i. xs ! i) (mset idx)"
    by (simp add: take_rows_def)
  also have "\<dots> = mset (map (\<lambda>i. xs ! i) [0..<length xs])"
    by (simp add: assms)
  also have "\<dots> = mset xs"
    by (simp add: map_nth)
  finally show ?thesis .
qed

lemma take_rows_keys:
  assumes "mset idx = mset [0..<length xs]"
  shows "map f (take_rows xs idx) = map (\<lambda>i. map f xs ! i) idx"
proof -
  have "set idx = {0..<length xs}"
    using assms by (metis mset_eq_setD set_upt)
  then show ?thesis
    by (auto simp: take_rows_def)
qed

lemma argsort_okD:
  "argsort_ok f \<Longrightarrow> mset (f ks) = mset [0..<length ks]"
  "argsort_ok f \<Longrightarrow> sorted (map (\<lambda>i. ks ! i) (f ks))"
  by (simp_all add: argsort_ok_def)

lemma sort_values_date_mset:
  "argsort_ok (argsort L) \<Longrightarrow> mset (sort_values_date L d irs) = mset irs"
  by (simp add: sort_values_date_def take_rows_mset argsort_okD)

lemma sort_values_date_sorted:
  assumes "argsort_ok (argsort L)"
  shows "sorted (map (\<lambda>ir. time_of (cell_at (snd ir) d)) (sort_values_date L d irs))"
proof -
  let ?key = "\<lambda>ir. time_of (cell_at (snd ir) d)"
  have "mset (argsort L (map ?key irs)) = mset [0..<length irs]"
    using argsort_okD(1) [OF assms, of "map ?key irs"] by simp
  then have "map ?key (sort_values_date L d irs)
      = map (\<lambda>i. map ?key irs ! i) (argsort L (map ?key irs))"
    unfolding sort_values_date_def by (rule take_rows_keys)
  then show ?thesis
    using argsort_okD(2) [OF assms, of "map ?key irs"] by simp
qed


section \<open>The rows of the cleaned table\<close>

lemma enumerate_nth: "enumerate 0 xs = map (\<lambda>i. (i, xs ! i)) [0..<length xs]"
proof -
  have "enumerate 0 (map (\<lambda>i. xs ! i) [0..<length xs]) = map (\<lambda>i. (i, xs ! i)) [0..<length xs]"
    by (rule enumerate_map_upt)
  then show ?thesis by (simp add: map_nth)
qed

lemma has_date_date_step:
  "has_date d (date_step L d (i, raw)) \<longleftrightarrow> to_datetime L (cell_at raw d) \<noteq> None"
  by (simp add: has_date_def date_step_def cell_at_set_cell_same coerce_date_def
      split: option.splits)

lemma kept_rows:
  "filter (has_date d) (map (date_step L d) (enumerate 0 xs))
     = map (\<lambda>i. date_step L d (i, xs ! i))
         (filter (\<lambda>i. to_datetime L (cell_at (xs ! i) d) \<noteq> None) [0..<length xs])"
  by (simp add: enumerate_nth filter_map comp_def has_date_date_step)

text \<open>One row through lines 140 to 147.\<close>

lemma row_steps:
  assumes dg: "d \<noteq> g" and ds: "d \<noteq> s" and gs: "g \<noteq> s"
    and dt: "to_datetime L (cell_at raw d) \<noteq> None"
    and e: "engagements_step L g (date_step L d (i, raw)) = Inr z"
    and y: "y = sentiment_step L s z"
  shows "fst y = i"
    and "\<exists>t. to_datetime L (cell_at raw d) = Some t \<and> cell_at (snd y) d = Time t"
    and "\<exists>k. astype_int L (fillna0 (to_numeric L (cell_at raw g))) = Inr k
           \<and> cell_at (snd y) g = NumV (IntV k)"
    and "cell_at (snd y) s = str_lower (astype_str L (cell_at raw s))"
    and "j \<noteq> d \<Longrightarrow> j \<noteq> g \<Longrightarrow> j \<noteq> s \<Longrightarrow> cell_at (snd y) j = cell_at raw j"
proof -
  obtain t where t: "to_datetime L (cell_at raw d) = Some t"
    using dt by auto
  let ?r1 = "set_cell raw d (Time t)"
  have x: "date_step L d (i, raw) = (i, ?r1)"
    by (simp add: date_step_def coerce_date_def t)
  have g1: "cell_at ?r1 g = cell_at raw g"
    using dg by (simp add: cell_at_set_cell_other)
  obtain k where k: "astype_int L (fillna0 (to_numeric L (cell_at raw g))) = Inr k"
    and z: "z = (i, set_cell ?r1 g (NumV (IntV k)))"
    using e unfolding x engagements_step_def by (auto simp: g1 split: sum.splits)
  let ?r2 = "set_cell ?r1 g (NumV (IntV k))"
  have s2: "cell_at ?r2 s = cell_at raw s"
    using ds gs by (simp add: cell_at_set_cell_other)
  have yy: "y = (i, set_cell ?r2 s (str_lower (astype_str L (cell_at raw s))))"
    by (simp add: y z sentiment_step_def s2)
  show "fst y = i" by (simp add: yy)
  show "\<exists>t. to_datetime L (cell_at raw d) = Some t \<and> cell_at (snd y) d = Time t"
    using dg ds by (simp add: yy t cell_at_set_cell_other cell_at_set_cell_same)
  show "\<exists>k. astype_int L (fillna0 (to_numeric L (cell_at raw g))) = Inr k
           \<and> cell_at (snd y) g = NumV (IntV k)"
    using gs by (simp add: yy k cell_at_set_cell_other cell_at_set_cell_same)
  show "cell_at (snd y) s = str_lower (astype_str L (cell_at raw s))"
    by (simp add: yy cell_at_set_cell_same)
  show "cell_at (snd y) j = cell_at raw j" if "j \<noteq> d" "j \<noteq> g" "j \<noteq> s"
    using that by (simp add: yy cell_at_set_cell_other)
qed

lemma required_present:
  assumes "normalized_rows L df = Inr (Some irs)"
  shows "set required_columns \<subseteq> set (map normalize_col (columns df))"
  using assms by (auto simp: normalized_rows_def Let_def split: if_splits)

lemma normalized_rows_steps:
  assumes "normalized_rows L df = Inr (Some irs)"
  defines "cols \<equiv> map normalize_col (columns df)"
  defines "d \<equiv> index_of ''date'' cols"
    and "g \<equiv> index_of ''engagements'' cols"
    and "s \<equiv> index_of ''sentiment'' cols"
  shows "list_all2
     (\<lambda>i y. \<exists>z. engagements_step L g (date_step L d (i, rows df ! i)) = Inr z
        \<and> y = sentiment_step L s z)
     (filter (\<lambda>i. to_datetime L (cell_at (rows df ! i) d) \<noteq> None) [0..<length (rows df)])
     irs"
proof -
  from assms(1) obtain counted where
    c: "traverse (engagements_step L g)
          (filter (has_date d) (map (date_step L d) (enumerate 0 (rows df)))) = Inr counted"
    and irs: "irs = map (sentiment_step L s) counted"
    unfolding normalized_rows_def cols_def d_def g_def s_def
    by (auto simp: Let_def split: if_splits sum.splits dest!: series_pos_Inr)
  have "list_all2 (\<lambda>x z. engagements_step L g x = Inr z)
          (map (\<lambda>i. date_step L d (i, rows df ! i))
             (filter (\<lambda>i. to_datetime L (cell_at (rows df ! i) d) \<noteq> None)
                [0..<length (rows df)])) counted"
    using traverse_Inr [OF c] by (simp add: kept_rows)
  then have "list_all2 (\<lambda>i z. engagements_step L g (date_step L d (i, rows df ! i)) = Inr z)
          (filter (\<lambda>i. to_datetime L (cell_at (rows df ! i) d) \<noteq> None)
             [0..<length (rows df)]) counted"
    by (simp add: list_all2_map1)
  then have "list_all2
     (\<lambda>i y. \<exists>z. engagements_step L g (date_step L d (i, rows df ! i)) = Inr z
        \<and> y = sentiment_step L s z)
     (filter (\<lambda>i. to_datetime L (cell_at (rows df ! i) d) \<noteq> None) [0..<length (rows df)])
     (map (sentiment_step L s) counted)"
    unfolding list_all2_map2 by (rule list_all2_mono) blast
  then show ?thesis
    by (simp only: irs)
qed

lemma three_positions:
  assumes "set required_columns \<subseteq> set cols"
  shows "index_of ''date'' cols \<noteq> index_of ''engagements'' cols"
    and "index_of ''date'' cols \<noteq> index_of ''sentiment'' cols"
    and "index_of ''engagements'' cols \<noteq> index_of ''sentiment'' cols"
proof -
  have m: "''date'' \<in> set cols" "''engagements'' \<in> set cols" "''sentiment'' \<in> set cols"
    using assms by (auto simp: required_columns_def)
  show "index_of ''date'' cols \<noteq> index_of ''engagements'' cols"
    using index_of_inject [OF m(1) m(2)] by auto
  show "index_of ''date'' cols \<noteq> index_of ''sentiment'' cols"
    using index_of_inject [OF m(1) m(3)] by auto
  show "index_of ''engagements'' cols \<noteq> index_of ''sentiment'' cols"
    using index_of_inject [OF m(2) m(3)] by auto
qed

text \<open>What lines 131 to 147 make of the upload, row by row.\<close>

lemma normalized_rows_rows:
  assumes "normalized_rows L df = Inr (Some irs)"
  defines "cols \<equiv> map normalize_col (columns df)"
  shows "list_all2
     (\<lambda>i y. fst y = i
        \<and> (\<exists>t. to_datetime L (cell_of cols ''date'' (rows df ! i)) = Some t
              \<and> cell_of cols ''date'' (snd y) = Time t)
        \<and> (\<exists>k. astype_int L (fillna0 (to_numeric L (cell_of cols ''engagements'' (rows df ! i))))
                = Inr k
              \<and> cell_of cols ''engagements'' (snd y) = NumV (IntV k))
        \<and> cell_of cols ''sentiment'' (snd y)
            = str_lower (astype_str L (cell_of cols ''sentiment'' (rows df ! i))))
     (filter (\<lambda>i. to_datetime L (cell_of cols ''date'' (rows df ! i)) \<noteq> None)
        [0..<length (rows df)])
     irs"
proof -
  note pos = three_positions [OF required_present [OF assms(1)], folded cols_def]
  have "list_all2
     (\<lambda>i y. \<exists>z. engagements_step L (index_of ''engagements'' cols)
                  (date_step L (index_of ''date'' cols) (i, rows df ! i)) = Inr z
        \<and> y = sentiment_step L (index_of ''sentiment'' cols) z)
     (filter (\<lambda>i. to_datetime L (cell_at (rows df ! i) (index_of ''date'' cols)) \<noteq> None)
        [0..<length (rows df)])
     irs"
    using normalized_rows_steps [OF assms(1)] by (simp add: cols_def)
  then show ?thesis
    unfolding cell_of_def
  proof (rule list.rel_mono_strong, goal_cases)
    case (1 i y)
    then have dt: "to_datetime L (cell_at (rows df ! i) (index_of ''date'' cols)) \<noteq> None"
      by simp
    from 1 obtain z where
      e: "engagements_step L (index_of ''engagements'' cols)
            (date_step L (index_of ''date'' cols) (i, rows df ! i)) = Inr z"
      and y: "y = sentiment_step L (index_of ''sentiment'' cols) z"
      by blast
    show ?case
      using row_steps(1-4) [OF pos dt e y] by simp
  qed
qed


lemma argsort_by_sort_key:
  assumes "mset zs = mset (enumerate 0 ks)"
  shows "mset (map fst (sort_key snd zs)) = mset [0..<length ks]"
    and "sorted (map (\<lambda>i. ks ! i) (map fst (sort_key snd zs)))"
proof -
  have "map fst (enumerate 0 ks) = [0..<length ks]"
    by simp
  then have e: "image_mset fst (mset (enumerate 0 ks)) = mset [0..<length ks]"
    by (metis mset_map)
  show "mset (map fst (sort_key snd zs)) = mset [0..<length ks]"
    by (simp only: mset_map mset_sort assms e)
  have "set zs = set (enumerate 0 ks)"
    using assms by (rule mset_eq_setD)
  then have "\<forall>z \<in> set (sort_key snd zs). ks ! fst z = snd z"
    by (auto simp: in_set_enumerate_eq)
  then have "map (\<lambda>i. ks ! i) (map fst (sort_key snd zs)) = map snd (sort_key snd zs)"
    by simp
  then show "sorted (map (\<lambda>i. ks ! i) (map fst (sort_key snd zs)))"
    by (simp only: sorted_sort_key)
qed

lemma stable_argsort_ok: "argsort_ok stable_argsort"
  unfolding argsort_ok_def stable_argsort_def
proof (intro allI conjI)
  fix ks :: "int list"
  show "mset (map fst (sort_key snd (enumerate 0 ks))) = mset [0..<length ks]"
    by (rule argsort_by_sort_key(1)) simp
  show "sorted (map (\<lambda>i. ks ! i) (map fst (sort_key snd (enumerate 0 ks))))"
    by (rule argsort_by_sort_key(2)) simp
qed

lemma sample_pandas_ok: "argsort_ok (argsort sample_pandas)"
  by (simp add: sample_pandas_def stable_argsort_ok)

lemma clean_frame_Some:
  assumes "clean_frame L df = Inr (Some out)"
  obtains irs where "normalized_rows L df = Inr (Some irs)"
    and "out = sort_values_date L (index_of ''date'' (map normalize_col (columns df))) irs"
  using assms by (auto simp: clean_frame_def split: sum.splits option.splits)

lemma clean_data_Some:
  assumes "clean_data L df = Inr (Some t)"
  obtains out where "clean_frame L df = Inr (Some out)"
    and "t = \<lparr>columns = map normalize_col (columns df), rows = map snd out\<rparr>"
proof (cases "clean_frame L df")
  case (Inl e)
  then show ?thesis using assms by (simp add: clean_data_def)
next
  case (Inr v)
  then show ?thesis
  proof (cases v)
    case None
    then show ?thesis using assms Inr by (simp add: clean_data_def)
  next
    case (Some out)
    have "\<lparr>columns = map normalize_col (columns df), rows = map snd out\<rparr> = t"
      using assms unfolding clean_data_def Inr Some
      by (simp only: sum.case option.case sum.inject option.inject)
    then show ?thesis using that Some Inr by blast
  qed
qed

text \<open>The rows that survive are those whose date parses, each once.\<close>

lemma normalized_rows_index:
  assumes "normalized_rows L df = Inr (Some irs)"
  shows "map fst irs
     = filter (\<lambda>i. to_datetime L (cell_of (map normalize_col (columns df)) ''date'' (rows df ! i)) \<noteq> None)
         [0..<length (rows df)]"
proof -
  have "list_all2 (\<lambda>i y. i = fst y)
     (filter (\<lambda>i. to_datetime L (cell_of (map normalize_col (columns df)) ''date'' (rows df ! i)) \<noteq> None)
         [0..<length (rows df)]) irs"
    using normalized_rows_rows [OF assms] by (rule list_all2_mono) simp
  then have "list_all2 (=)
     (filter (\<lambda>i. to_datetime L (cell_of (map normalize_col (columns df)) ''date'' (rows df ! i)) \<noteq> None)
         [0..<length (rows df)]) (map fst irs)"
    by (simp only: list_all2_map2)
  then show ?thesis
    by (simp only: list_all2_eq [symmetric])
qed

lemma normalized_rows_member:
  assumes "normalized_rows L df = Inr (Some irs)" and "(i, r) \<in> set irs"
  shows "i < length (rows df)"
    and "\<exists>t. to_datetime L (cell_of (map normalize_col (columns df)) ''date'' (rows df ! i)) = Some t
           \<and> cell_of (map normalize_col (columns df)) ''date'' r = Time t"
    and "\<exists>k. astype_int L (fillna0 (to_numeric L
                (cell_of (map normalize_col (columns df)) ''engagements'' (rows df ! i)))) = Inr k
           \<and> cell_of (map normalize_col (columns df)) ''engagements'' r = NumV (IntV k)"
    and "cell_of (map normalize_col (columns df)) ''sentiment'' r
           = str_lower (astype_str L
               (cell_of (map normalize_col (columns df)) ''sentiment'' (rows df ! i)))"
proof -
  let ?cols = "map normalize_col (columns df)"
  let ?is = "filter (\<lambda>i. to_datetime L (cell_of ?cols ''date'' (rows df ! i)) \<noteq> None)
     [0..<length (rows df)]"
  let ?P = "\<lambda>j y. fst y = j
        \<and> (\<exists>t. to_datetime L (cell_of ?cols ''date'' (rows df ! j)) = Some t
              \<and> cell_of ?cols ''date'' (snd y) = Time t)
        \<and> (\<exists>k. astype_int L (fillna0 (to_numeric L (cell_of ?cols ''engagements'' (rows df ! j))))
                = Inr k
              \<and> cell_of ?cols ''engagements'' (snd y) = NumV (IntV k))
        \<and> cell_of ?cols ''sentiment'' (snd y)
            = str_lower (astype_str L (cell_of ?cols ''sentiment'' (rows df ! j)))"
  have all: "list_all2 ?P ?is irs"
    using normalized_rows_rows [OF assms(1)] .
  obtain n where n: "n < length irs" "irs ! n = (i, r)"
    using assms(2) by (auto simp: in_set_conv_nth)
  have len: "length ?is = length irs"
    using all by (rule list_all2_lengthD)
  define j where "j = ?is ! n"
  have j: "j \<in> set ?is"
    unfolding j_def using n(1) len by (metis nth_mem)
  have rel: "?P j (i, r)"
    using list_all2_nthD [OF all, of n] n len by (simp add: j_def)
  from rel have ij: "j = i" by simp
  show "i < length (rows df)" using j ij by simp
  show "\<exists>t. to_datetime L (cell_of ?cols ''date'' (rows df ! i)) = Some t
           \<and> cell_of ?cols ''date'' r = Time t"
    using rel ij by simp
  show "\<exists>k. astype_int L (fillna0 (to_numeric L (cell_of ?cols ''engagements'' (rows df ! i)))) = Inr k
           \<and> cell_of ?cols ''engagements'' r = NumV (IntV k)"
    using rel ij by simp
  show "cell_of ?cols ''sentiment'' r
           = str_lower (astype_str L (cell_of ?cols ''sentiment'' (rows df ! i)))"
    using rel ij by simp
qed

lemma clean_frame_set:
  assumes "clean_frame L df = Inr (Some out)" and "argsort_ok (argsort L)"
  obtains irs where "normalized_rows L df = Inr (Some irs)" and "mset out = mset irs"
  using assms by (auto elim!: clean_frame_Some simp: sort_values_date_mset)

section \<open>Engagements\<close>

lemma clean_data_of_frame:
  "clean_frame L df = Inr (Some out) \<Longrightarrow>
     clean_data L df = Inr (Some \<lparr>columns = map normalize_col (columns df), rows = map snd out\<rparr>)"
  by (simp add: clean_data_def)




text \<open>
  The casts of an unsigned \<open>2\<^sup>6\<^sup>3\<close> and of the float \<open>10\<^sup>1\<^sup>9\<close> on x86-64, and of
  a negative fraction.
\<close>

lemma astype_int_samples:
  "astype_int sample_pandas (IntV (2 ^ 63)) = Inr (- (2 ^ 63))"
  "astype_int sample_pandas (FloatV (10 ^ 19)) = Inr (- (2 ^ 63))"
  "astype_int sample_pandas (FloatV (- 7 / 2)) = Inr (- 3)"
  by code_simp+




section \<open>Dates and the order of the rows\<close>

text \<open>
  C4. No row of the upload whose date does not parse is in the table that
  \<open>clean_data\<close> returns, and every row of that table comes from a row of the upload
  whose date parsed and holds the parsed timestamp as its date.
\<close>

theorem C4_unparsed_dates_dropped:
  assumes "clean_frame L df = Inr (Some out)" and "argsort_ok (argsort L)"
  shows "clean_data L df
       = Inr (Some \<lparr>columns = map normalize_col (columns df), rows = map snd out\<rparr>)
     \<and> (\<forall>i < length (rows df).
          to_datetime L (cell_of (map normalize_col (columns df)) ''date'' (rows df ! i)) = None
            \<longrightarrow> i \<notin> fst ` set out)
     \<and> (\<forall>ir \<in> set out. fst ir < length (rows df)
          \<and> (\<exists>t. to_datetime L
                 (cell_of (map normalize_col (columns df)) ''date'' (rows df ! fst ir)) = Some t
               \<and> cell_of (map normalize_col (columns df)) ''date'' (snd ir) = Time t))"
proof -
  obtain irs where n: "normalized_rows L df = Inr (Some irs)" and m: "mset out = mset irs"
    using assms by (rule clean_frame_set)
  have s: "set out = set irs"
    using m by (rule mset_eq_setD)
  have "fst ir < length (rows df)
      \<and> (\<exists>t. to_datetime L
             (cell_of (map normalize_col (columns df)) ''date'' (rows df ! fst ir)) = Some t
           \<and> cell_of (map normalize_col (columns df)) ''date'' (snd ir) = Time t)"
    if "ir \<in> set out" for ir
  proof -
    have "(fst ir, snd ir) \<in> set irs"
      using that s by simp
    then show ?thesis
      using normalized_rows_member(1,2) [OF n] by blast
  qed
  then have present: "\<forall>ir \<in> set out. fst ir < length (rows df)
      \<and> (\<exists>t. to_datetime L
             (cell_of (map normalize_col (columns df)) ''date'' (rows df ! fst ir)) = Some t
           \<and> cell_of (map normalize_col (columns df)) ''date'' (snd ir) = Time t)"
    by blast
  then have absent: "\<forall>i < length (rows df).
      to_datetime L (cell_of (map normalize_col (columns df)) ''date'' (rows df ! i)) = None
        \<longrightarrow> i \<notin> fst ` set out"
    by fastforce
  show ?thesis
    using clean_data_of_frame [OF assms(1)] present absent by blast
qed

theorem C4_unparsed_dates_dropped_witness:
  "clean_frame sample_pandas spec_upload
     = Inr (Some
        [(0, [Time 1704067200000000000, Str ''TikTok'', Str ''positive'', Str ''NY'',
              NumV (IntV 10), Str ''video'']),
         (1, [Time 1704067200000000000, Str ''X'', Str ''positive'', Str ''NY'',
              NumV (IntV 5), Str ''text''])])
   \<and> argsort_ok (argsort sample_pandas)
   \<and> (2::nat) < length (rows spec_upload)
   \<and> to_datetime sample_pandas
        (cell_of (map normalize_col (columns spec_upload)) ''date'' (rows spec_upload ! 2)) = None
   \<and> 2 \<notin> fst ` set
        [(0::nat, [Time 1704067200000000000, Str ''TikTok'', Str ''positive'', Str ''NY'',
              NumV (IntV 10), Str ''video'']),
         (1, [Time 1704067200000000000, Str ''X'', Str ''positive'', Str ''NY'',
              NumV (IntV 5), Str ''text''])]"
proof -
  let ?out = "[(0::nat, [Time 1704067200000000000, Str ''TikTok'', Str ''positive'', Str ''NY'',
              NumV (IntV 10), Str ''video'']),
         (1, [Time 1704067200000000000, Str ''X'', Str ''positive'', Str ''NY'',
              NumV (IntV 5), Str ''text''])]"
  have h1: "clean_frame sample_pandas spec_upload = Inr (Some ?out)"
    by code_simp
  have h2: "(2::nat) < length (rows spec_upload)"
    by code_simp
  have h3: "to_datetime sample_pandas
        (cell_of (map normalize_col (columns spec_upload)) ''date'' (rows spec_upload ! 2)) = None"
    by code_simp
  show ?thesis
    using C4_unparsed_dates_dropped [OF h1 sample_pandas_ok] h1 h2 h3 sample_pandas_ok
    by blast
qed

text \<open>
  C5, as the code has it. The table that \<open>clean_data\<close> returns holds the rows left
  by lines 131 to 147, each as often as there, in ascending order of their dates. The
  order of rows with the same date is that of the library's default index sort, which
  promises none.
\<close>

theorem C5_sorted_by_date:
  assumes "clean_data L df = Inr (Some t)" and "argsort_ok (argsort L)"
  shows "sorted (map (\<lambda>r. time_of (cell_of (columns t) ''date'' r)) (rows t))
     \<and> (\<exists>irs. normalized_rows L df = Inr (Some irs) \<and> mset (rows t) = mset (map snd irs))"
proof -
  obtain out where f: "clean_frame L df = Inr (Some out)"
    and t: "t = \<lparr>columns = map normalize_col (columns df), rows = map snd out\<rparr>"
    using assms(1) by (rule clean_data_Some)
  obtain irs where n: "normalized_rows L df = Inr (Some irs)"
    and out: "out = sort_values_date L (index_of ''date'' (map normalize_col (columns df))) irs"
    using f by (rule clean_frame_Some)
  have "sorted (map (\<lambda>ir. time_of (cell_at (snd ir)
          (index_of ''date'' (map normalize_col (columns df))))) out)"
    unfolding out using assms(2) by (rule sort_values_date_sorted)
  then have a: "sorted (map (\<lambda>r. time_of (cell_of (columns t) ''date'' r)) (rows t))"
    by (simp add: t cell_of_def comp_def)
  have "mset out = mset irs"
    unfolding out using assms(2) by (rule sort_values_date_mset)
  then have "mset (map snd out) = mset (map snd irs)"
    by (metis mset_map)
  then show ?thesis
    using a n by (auto simp: t)
qed

theorem C5_sorted_by_date_witness:
  "clean_data sample_pandas unsorted_upload
     = Inr (Some \<lparr>columns = canonical, rows =
        [[Time 1704067200000000000, Str ''X'', Str ''positive'', Str ''NY'',
            NumV (IntV 1), Str ''text''],
         [Time 1704153600000000000, Str ''X'', Str ''positive'', Str ''NY'',
            NumV (IntV 2), Str ''text''],
         [Time 1704240000000000000, Str ''X'', Str ''positive'', Str ''NY'',
            NumV (IntV 3), Str ''text'']]\<rparr>)
   \<and> argsort_ok (argsort sample_pandas)
   \<and> sorted [1704067200000000000, 1704153600000000000, 1704240000000000000 :: int]"
proof -
  let ?t = "\<lparr>columns = canonical, rows =
        [[Time 1704067200000000000, Str ''X'', Str ''positive'', Str ''NY'',
            NumV (IntV 1), Str ''text''],
         [Time 1704153600000000000, Str ''X'', Str ''positive'', Str ''NY'',
            NumV (IntV 2), Str ''text''],
         [Time 1704240000000000000, Str ''X'', Str ''positive'', Str ''NY'',
            NumV (IntV 3), Str ''text'']]\<rparr>"
  have h1: "clean_data sample_pandas unsorted_upload = Inr (Some ?t)"
    by code_simp
  have k: "map (\<lambda>r. time_of (cell_of (columns ?t) ''date'' r)) (rows ?t)
      = [1704067200000000000, 1704153600000000000, 1704240000000000000]"
    by code_simp
  have "sorted (map (\<lambda>r. time_of (cell_of (columns ?t) ''date'' r)) (rows ?t))"
    using C5_sorted_by_date [OF h1 sample_pandas_ok] by (rule conjunct1)
  then have "sorted [1704067200000000000, 1704153600000000000, 1704240000000000000 :: int]"
    by (simp only: k)
  then show ?thesis
    using h1 sample_pandas_ok by (simp only: simp_thms)
qed

text \<open>
  Eighteen rows of one date, sorted by the index sort of numpy: the rows that stood at
  places 1 to 15 of the upload come out in the opposite order.
\<close>

theorem C5_equal_dates_counterexample:
  "clean_frame quicksort_pandas same_day_upload
     = Inr (Some (map same_day_cleaned
         [0, 15, 14, 13, 12, 11, 10, 9, 8, 7, 6, 5, 4, 3, 2, 1, 16, 17]))
   \<and> \<not> upload_order_kept (index_of ''date'' (map normalize_col (columns same_day_upload)))
        (map same_day_cleaned [0, 15, 14, 13, 12, 11, 10, 9, 8, 7, 6, 5, 4, 3, 2, 1, 16, 17])"
  by code_simp

section \<open>Sorting in descending order\<close>

lemma mirror_upt: "map (\<lambda>j. n - 1 - j) [0..<n] = rev [0..<n]"
  by (rule nth_equalityI) (auto simp: rev_nth)

lemma nargsort_desc_mset:
  assumes "argsort_ok (argsort L)"
  shows "mset (nargsort_desc L ks) = mset [0..<length ks]"
proof -
  have "mset (argsort L (rev ks)) = mset [0..<length ks]"
    using argsort_okD(1) [OF assms, of "rev ks"] by simp
  then have "image_mset (\<lambda>j. length ks - 1 - j) (mset (argsort L (rev ks)))
      = mset (map (\<lambda>j. length ks - 1 - j) [0..<length ks])"
    by (simp only: mset_map)
  also have "\<dots> = mset [0..<length ks]"
    by (simp only: mirror_upt mset_rev)
  finally show ?thesis
    by (simp only: nargsort_desc_def mset_rev mset_map)
qed

lemma nargsort_desc_sorted:
  assumes "argsort_ok (argsort L)"
  shows "sorted (rev (map (\<lambda>i. ks ! i) (nargsort_desc L ks)))"
proof -
  have "set (argsort L (rev ks)) = {0..<length ks}"
    using argsort_okD(1) [OF assms, of "rev ks"] by (metis length_rev mset_eq_setD set_upt)
  then have "map (\<lambda>j. ks ! (length ks - 1 - j)) (argsort L (rev ks))
      = map (\<lambda>j. rev ks ! j) (argsort L (rev ks))"
    by (auto simp: rev_nth)
  then have "rev (map (\<lambda>i. ks ! i) (nargsort_desc L ks))
      = map (\<lambda>j. rev ks ! j) (argsort L (rev ks))"
    by (simp add: nargsort_desc_def rev_map comp_def)
  then show ?thesis
    using argsort_okD(2) [OF assms, of "rev ks"] by simp
qed

lemma sort_values_desc_mset:
  "argsort_ok (argsort L) \<Longrightarrow> mset (sort_values_desc L kvs) = mset kvs"
  unfolding sort_values_desc_def
  by (rule take_rows_mset) (simp add: nargsort_desc_mset)

lemma sort_values_desc_sorted:
  assumes "argsort_ok (argsort L)"
  shows "sorted (rev (map snd (sort_values_desc L kvs)))"
proof -
  have "mset (nargsort_desc L (map snd kvs)) = mset [0..<length kvs]"
    using nargsort_desc_mset [OF assms, of "map snd kvs"] by simp
  then have "map snd (sort_values_desc L kvs)
      = map (\<lambda>i. map snd kvs ! i) (nargsort_desc L (map snd kvs))"
    unfolding sort_values_desc_def by (rule take_rows_keys)
  then show ?thesis
    using nargsort_desc_sorted [OF assms, of "map snd kvs"] by simp
qed

lemma sort_values_desc_set:
  "argsort_ok (argsort L) \<Longrightarrow> set (sort_values_desc L kvs) = set kvs"
  by (rule mset_eq_setD) (rule sort_values_desc_mset)

lemma sort_values_desc_keys:
  assumes "argsort_ok (argsort L)"
  shows "mset (map fst (sort_values_desc L kvs)) = mset (map fst kvs)"
  using sort_values_desc_mset [OF assms, of kvs] by (metis mset_map)

lemma sort_values_desc_distinct:
  assumes "argsort_ok (argsort L)" and "distinct (map fst kvs)"
  shows "distinct (map fst (sort_values_desc L kvs))"
  using sort_values_desc_keys [OF assms(1), of kvs] assms(2) by (metis mset_eq_imp_distinct_iff)

lemma sort_values_desc_Nil:
  "argsort_ok (argsort L) \<Longrightarrow> sort_values_desc L [] = []"
  using sort_values_desc_mset [of L "[]"] by simp

text \<open>The first five of a descending list: at most five, descending, none smaller than the rest.\<close>

lemma take_descending:
  assumes "sorted (rev (map snd xs))"
  shows "sorted (rev (map snd (take n xs)))"
    and "\<forall>a \<in> set (take n xs). \<forall>b \<in> set (drop n xs). snd b \<le> snd a"
proof -
  have "sorted (rev (map snd (drop n xs)) @ rev (map snd (take n xs)))"
    using assms by (metis append_take_drop_id map_append rev_append)
  then show "sorted (rev (map snd (take n xs)))"
    and "\<forall>a \<in> set (take n xs). \<forall>b \<in> set (drop n xs). snd b \<le> snd a"
    by (auto simp: sorted_append)
qed

section \<open>Groups\<close>

lemma groupby_sum_keys:
  "map fst (groupby_sum rank kvs) = sort_key rank (remdups (map fst kvs))"
  by (simp add: groupby_sum_def comp_def)

lemma groupby_sum_distinct: "distinct (map fst (groupby_sum rank kvs))"
  by (simp add: groupby_sum_keys)

lemma groupby_sum_set_keys: "fst ` set (groupby_sum rank kvs) = fst ` set kvs"
  using arg_cong [OF groupby_sum_keys, of set rank kvs] by simp

lemma groupby_sum_value:
  "(k, v) \<in> set (groupby_sum rank kvs) \<Longrightarrow>
     v = wrap64 (sum_list (map snd (filter (\<lambda>kv. fst kv = k) kvs)))"
  by (auto simp: groupby_sum_def)

lemma groupby_sum_Nil: "groupby_sum rank [] = []"
  by (simp add: groupby_sum_def)

lemma groupby_sum_not_Nil: "kvs \<noteq> [] \<Longrightarrow> groupby_sum rank kvs \<noteq> []"
  using groupby_sum_set_keys [of rank kvs] by (cases kvs) auto

section \<open>Counts\<close>

lemma unique_set: "set (unique xs) = set xs"
  by (simp add: unique_def)

lemma unique_distinct: "distinct (unique xs)"
  by (simp add: unique_def)

lemma int_sum_list: "int (sum_list (map f xs)) = sum_list (map (\<lambda>x. int (f x)) xs)"
  by (induction xs) auto

lemma counts_total:
  "sum_list (map (\<lambda>k. int (count_list vs k)) (unique vs)) = int (length vs)"
proof -
  have "sum_list (map (count_list vs) (unique vs)) = sum (count_list vs) (set vs)"
    using sum_list_distinct_conv_sum_set [OF unique_distinct, of "count_list vs" vs]
    by (simp add: unique_set)
  also have "\<dots> = length vs"
    by (rule sum_count_set) simp_all
  finally have "int (sum_list (map (count_list vs) (unique vs))) = int (length vs)"
    by simp
  then show ?thesis
    by (simp only: int_sum_list)
qed

lemma value_counts_total:
  assumes "argsort_ok (argsort L)"
  shows "sum_list (map snd (value_counts L xs)) = int (length (filter (\<lambda>c. c \<noteq> NaN) xs))"
proof -
  let ?vs = "filter (\<lambda>c. c \<noteq> NaN) xs"
  let ?kc = "map (\<lambda>k. (k, int (count_list ?vs k))) (unique ?vs)"
  have "mset (map snd (value_counts L xs)) = mset (map snd ?kc)"
    using sort_values_desc_mset [OF assms, of ?kc] by (metis mset_map value_counts_def)
  then have "sum_list (map snd (value_counts L xs)) = sum_list (map snd ?kc)"
    by (metis sum_mset_sum_list)
  also have "\<dots> = int (length ?vs)"
    using counts_total [of ?vs] by (simp add: comp_def)
  finally show ?thesis .
qed

lemma value_counts_keys:
  assumes "argsort_ok (argsort L)"
  shows "fst ` set (value_counts L xs) = {c \<in> set xs. c \<noteq> NaN}"
proof -
  have "set (value_counts L xs)
      = set (map (\<lambda>k. (k, int (count_list (filter (\<lambda>c. c \<noteq> NaN) xs) k)))
          (unique (filter (\<lambda>c. c \<noteq> NaN) xs)))"
    by (simp add: value_counts_def Let_def sort_values_desc_set [OF assms])
  then show ?thesis
    by (auto simp: unique_set image_iff)
qed

lemma value_counts_Nil: "argsort_ok (argsort L) \<Longrightarrow> value_counts L [] = []"
  by (simp add: value_counts_def unique_def sort_values_desc_Nil)


section \<open>The columns of the cleaned table\<close>

lemma normalized_series:
  assumes "normalized_rows L df = Inr (Some irs)"
  shows "count_list (map normalize_col (columns df)) ''date'' = 1"
    and "count_list (map normalize_col (columns df)) ''engagements'' = 1"
    and "count_list (map normalize_col (columns df)) ''sentiment'' = 1"
  using assms
  by (auto simp: normalized_rows_def Let_def series_pos_def split: if_splits sum.splits)

lemma series_pos_one: "count_list cols name = 1 \<Longrightarrow> series_pos cols name = Inr (index_of name cols)"
  by (simp add: series_pos_def)

lemma cleaned_table:
  assumes "clean_data L df = Inr (Some t)" and "argsort_ok (argsort L)"
  obtains irs where "normalized_rows L df = Inr (Some irs)"
    and "columns t = map normalize_col (columns df)"
    and "mset (rows t) = mset (map snd irs)"
proof -
  obtain out where f: "clean_frame L df = Inr (Some out)"
    and t: "t = \<lparr>columns = map normalize_col (columns df), rows = map snd out\<rparr>"
    using assms(1) by (rule clean_data_Some)
  obtain irs where n: "normalized_rows L df = Inr (Some irs)" and m: "mset out = mset irs"
    using f assms(2) by (rule clean_frame_set)
  have "mset (map snd out) = mset (map snd irs)"
    using m by (metis mset_map)
  then show ?thesis
    using that [OF n] by (simp add: t)
qed

lemma str_lower_astype_str:
  "missing_to_str L \<noteq> None \<Longrightarrow> \<exists>s. str_lower (astype_str L c) = Str s"
  by (cases c) (auto simp: str_lower_def astype_str_def)

lemma cleaned_cells:
  assumes "clean_data L df = Inr (Some t)" and "argsort_ok (argsort L)" and "r \<in> set (rows t)"
  shows "\<exists>x. cell_of (columns t) ''date'' r = Time x"
    and "\<exists>k. cell_of (columns t) ''engagements'' r = NumV (IntV k)"
    and "missing_to_str L \<noteq> None \<Longrightarrow> \<exists>s. cell_of (columns t) ''sentiment'' r = Str s"
proof -
  obtain irs where n: "normalized_rows L df = Inr (Some irs)"
    and c: "columns t = map normalize_col (columns df)"
    and m: "mset (rows t) = mset (map snd irs)"
    using assms(1,2) by (rule cleaned_table)
  have "r \<in> set (map snd irs)"
    using assms(3) mset_eq_setD [OF m] by simp
  then obtain i where mem: "(i, r) \<in> set irs"
    by auto
  note row = normalized_rows_member [OF n mem]
  show "\<exists>x. cell_of (columns t) ''date'' r = Time x"
    using row(2) by (auto simp: c)
  show "\<exists>k. cell_of (columns t) ''engagements'' r = NumV (IntV k)"
    using row(3) by (auto simp: c)
  show "\<exists>s. cell_of (columns t) ''sentiment'' r = Str s" if "missing_to_str L \<noteq> None"
    using row(4) str_lower_astype_str [OF that] by (simp add: c)
qed

lemma cleaned_series:
  assumes "clean_data L df = Inr (Some t)" and "argsort_ok (argsort L)"
  shows "series_pos (columns t) ''date'' = Inr (index_of ''date'' (columns t))"
    and "series_pos (columns t) ''engagements'' = Inr (index_of ''engagements'' (columns t))"
    and "series_pos (columns t) ''sentiment'' = Inr (index_of ''sentiment'' (columns t))"
proof -
  obtain irs where n: "normalized_rows L df = Inr (Some irs)"
    and c: "columns t = map normalize_col (columns df)"
    using assms by (rule cleaned_table)
  show "series_pos (columns t) ''date'' = Inr (index_of ''date'' (columns t))"
    unfolding c by (rule series_pos_one) (rule normalized_series(1) [OF n])
  show "series_pos (columns t) ''engagements'' = Inr (index_of ''engagements'' (columns t))"
    unfolding c by (rule series_pos_one) (rule normalized_series(2) [OF n])
  show "series_pos (columns t) ''sentiment'' = Inr (index_of ''sentiment'' (columns t))"
    unfolding c by (rule series_pos_one) (rule normalized_series(3) [OF n])
qed

section \<open>Sentiment breakdown\<close>

lemma cleaned_sentiment_counts:
  assumes "clean_data L df = Inr (Some t)" and "argsort_ok (argsort L)"
  shows "counts_of L t ''sentiment''
     = Inr (value_counts L (map (\<lambda>r. cell_of (columns t) ''sentiment'' r) (rows t)))"
  by (simp add: counts_of_def column_values_def cleaned_series(3) [OF assms] cell_of_def)

text \<open>
  C9, as the code has it. On the table that \<open>clean_data\<close> returns, the counts of the
  sentiment breakdown, as drawn in the chart and as put into the prompt, add up to the
  number of rows whose sentiment is not missing. That is the number of all rows where the
  library makes a string of a missing value (pandas 2) or no row lacks a sentiment.
\<close>

theorem C9_sentiment_counts_total:
  assumes "clean_data L df = Inr (Some t)" and "argsort_ok (argsort L)"
  shows "\<exists>agg. create_sentiment_chart L t = Inr agg \<and> sentiment_counts L t = Inr agg
     \<and> sum_list (map snd agg)
         = int (length (filter (\<lambda>r. cell_of (columns t) ''sentiment'' r \<noteq> NaN) (rows t)))
     \<and> (missing_to_str L \<noteq> None \<longrightarrow> sum_list (map snd agg) = int (length (rows t)))"
proof -
  let ?xs = "map (\<lambda>r. cell_of (columns t) ''sentiment'' r) (rows t)"
  have f: "filter (\<lambda>c. c \<noteq> NaN) ?xs
      = map (\<lambda>r. cell_of (columns t) ''sentiment'' r)
          (filter (\<lambda>r. cell_of (columns t) ''sentiment'' r \<noteq> NaN) (rows t))"
    by (simp add: filter_map comp_def)
  have total: "sum_list (map snd (value_counts L ?xs))
      = int (length (filter (\<lambda>r. cell_of (columns t) ''sentiment'' r \<noteq> NaN) (rows t)))"
    unfolding value_counts_total [OF assms(2)] f by simp
  have all: "filter (\<lambda>r. cell_of (columns t) ''sentiment'' r \<noteq> NaN) (rows t) = rows t"
    if "missing_to_str L \<noteq> None"
  proof -
    have "\<forall>r \<in> set (rows t). cell_of (columns t) ''sentiment'' r \<noteq> NaN"
      using cleaned_cells(3) [OF assms _ that] by fastforce
    then show ?thesis
      by (simp only: filter_True)
  qed
  have "missing_to_str L \<noteq> None \<longrightarrow>
      sum_list (map snd (value_counts L ?xs)) = int (length (rows t))"
    using total all by simp
  then show ?thesis
    using total
    by (simp add: create_sentiment_chart_def sentiment_counts_def
        cleaned_sentiment_counts [OF assms])
qed

theorem C9_sentiment_counts_total_witness:
  "clean_data sample_pandas two_sentiments_upload
     = Inr (Some \<lparr>columns = canonical, rows =
        [[Time 1704067200000000000, Str ''X'', Str ''positive'', Str ''NY'',
            NumV (IntV 5), Str ''text''],
         [Time 1704153600000000000, Str ''X'', Str ''negative'', Str ''NY'',
            NumV (IntV 6), Str ''text''],
         [Time 1704240000000000000, Str ''X'', Str ''positive'', Str ''LA'',
            NumV (IntV 7), Str ''image'']]\<rparr>)
   \<and> argsort_ok (argsort sample_pandas)
   \<and> sentiment_counts sample_pandas \<lparr>columns = canonical, rows =
        [[Time 1704067200000000000, Str ''X'', Str ''positive'', Str ''NY'',
            NumV (IntV 5), Str ''text''],
         [Time 1704153600000000000, Str ''X'', Str ''negative'', Str ''NY'',
            NumV (IntV 6), Str ''text''],
         [Time 1704240000000000000, Str ''X'', Str ''positive'', Str ''LA'',
            NumV (IntV 7), Str ''image'']]\<rparr>
       = Inr [(Str ''positive'', 2), (Str ''negative'', 1)]
   \<and> sum_list (map snd [(Str ''positive'', 2 :: int), (Str ''negative'', 1)]) = int 3"
proof -
  let ?t = "\<lparr>columns = canonical, rows =
        [[Time 1704067200000000000, Str ''X'', Str ''positive'', Str ''NY'',
            NumV (IntV 5), Str ''text''],
         [Time 1704153600000000000, Str ''X'', Str ''negative'', Str ''NY'',
            NumV (IntV 6), Str ''text''],
         [Time 1704240000000000000, Str ''X'', Str ''positive'', Str ''LA'',
            NumV (IntV 7), Str ''image'']]\<rparr>"
  have h1: "clean_data sample_pandas two_sentiments_upload = Inr (Some ?t)"
    by code_simp
  have h2: "sentiment_counts sample_pandas ?t = Inr [(Str ''positive'', 2), (Str ''negative'', 1)]"
    by code_simp
  have h3: "missing_to_str sample_pandas \<noteq> None"
    by (simp add: sample_pandas_def)
  have "sum_list (map snd [(Str ''positive'', 2 :: int), (Str ''negative'', 1)])
      = int (length (rows ?t))"
    using C9_sentiment_counts_total [OF h1 sample_pandas_ok] h2 h3 by auto
  then show ?thesis
    using h1 h2 sample_pandas_ok by simp
qed

text \<open>
  Where the library leaves a missing value missing, as pandas 3 does, the row without a
  sentiment is counted under no key: two rows, and counts that add up to 1.
\<close>

theorem C9_missing_sentiment_counterexample:
  "clean_data sample_pandas_3 unlabelled_upload
     = Inr (Some \<lparr>columns = canonical, rows =
        [[Time 1704067200000000000, Str ''X'', Str ''positive'', Str ''NY'',
            NumV (IntV 5), Str ''text''],
         [Time 1704153600000000000, Str ''X'', NaN, Str ''LA'',
            NumV (IntV 7), Str ''image'']]\<rparr>)
   \<and> sentiment_counts sample_pandas_3 \<lparr>columns = canonical, rows =
        [[Time 1704067200000000000, Str ''X'', Str ''positive'', Str ''NY'',
            NumV (IntV 5), Str ''text''],
         [Time 1704153600000000000, Str ''X'', NaN, Str ''LA'',
            NumV (IntV 7), Str ''image'']]\<rparr> = Inr [(Str ''positive'', 1)]
   \<and> sum_list (map snd [(Str ''positive'', 1 :: int)]) \<noteq> int 2"
  by code_simp

lemma lower_nan: "lower ''nan'' = ''nan''"
  by code_simp

text \<open>
  C10, as the code has it. A row of the upload without a sentiment is not dropped for
  that: when its date parses it is in the cleaned table. Its sentiment there is what
  \<^verbatim>\<open>astype(str)\<close> makes of a missing value, in lower case: where that is a string,
  as \<open>nan\<close> in pandas 2, the string is a key of the sentiment breakdown; where the value
  stays missing, as in pandas 3, the sentiment stays missing. A missing sentiment is never
  a key of the breakdown.
\<close>

theorem C10_missing_sentiment:
  assumes "clean_frame L df = Inr (Some out)" and "argsort_ok (argsort L)"
    and "i < length (rows df)"
    and "cell_of (map normalize_col (columns df)) ''sentiment'' (rows df ! i) = NaN"
    and "to_datetime L (cell_of (map normalize_col (columns df)) ''date'' (rows df ! i)) \<noteq> None"
  shows "(\<exists>r. (i, r) \<in> set out
          \<and> cell_of (map normalize_col (columns df)) ''sentiment'' r
              = str_lower (missing_to_str L))
     \<and> (\<exists>t agg. clean_data L df = Inr (Some t) \<and> sentiment_counts L t = Inr agg
          \<and> (\<forall>s. missing_to_str L = Some s \<longrightarrow> Str (lower s) \<in> fst ` set agg)
          \<and> NaN \<notin> fst ` set agg)"
proof -
  let ?cols = "map normalize_col (columns df)"
  let ?t = "\<lparr>columns = ?cols, rows = map snd out\<rparr>"
  let ?xs = "map (\<lambda>r. cell_of (columns ?t) ''sentiment'' r) (rows ?t)"
  obtain irs where n: "normalized_rows L df = Inr (Some irs)" and m: "mset out = mset irs"
    using assms(1,2) by (rule clean_frame_set)
  have "i \<in> set (map fst irs)"
    unfolding normalized_rows_index [OF n] using assms(3,5) by simp
  then obtain r where mem: "(i, r) \<in> set irs"
    by auto
  have r: "cell_of ?cols ''sentiment'' r = str_lower (missing_to_str L)"
    using normalized_rows_member(4) [OF n mem] by (simp add: assms(4) astype_str_def)
  have out: "(i, r) \<in> set out"
    using mem mset_eq_setD [OF m] by simp
  have t: "clean_data L df = Inr (Some ?t)"
    using assms(1) by (rule clean_data_of_frame)
  have keys: "fst ` set (value_counts L ?xs) = {c \<in> set ?xs. c \<noteq> NaN}"
    by (rule value_counts_keys [OF assms(2)])
  have "r \<in> set (rows ?t)"
    using out by (simp add: rev_image_eqI)
  then have "cell_of (columns ?t) ''sentiment'' r \<in> set ?xs"
    unfolding set_map by (rule imageI)
  then have xs: "str_lower (missing_to_str L) \<in> set ?xs"
    using r by simp
  have "Str (lower s) \<in> {c \<in> set ?xs. c \<noteq> NaN}" if "missing_to_str L = Some s" for s
    using xs that by (simp add: str_lower_def)
  then have "\<forall>s. missing_to_str L = Some s \<longrightarrow> Str (lower s) \<in> fst ` set (value_counts L ?xs)"
    by (simp only: keys) blast
  moreover have "NaN \<notin> fst ` set (value_counts L ?xs)"
    by (simp only: keys) simp
  moreover have "sentiment_counts L ?t = Inr (value_counts L ?xs)"
    by (simp add: sentiment_counts_def cleaned_sentiment_counts [OF t assms(2)])
  ultimately have "\<exists>agg. sentiment_counts L ?t = Inr agg
      \<and> (\<forall>s. missing_to_str L = Some s \<longrightarrow> Str (lower s) \<in> fst ` set agg)
      \<and> NaN \<notin> fst ` set agg"
    by simp
  then show ?thesis
    using out r t by blast
qed

theorem C10_missing_sentiment_witness:
  "clean_frame sample_pandas unlabelled_upload
     = Inr (Some
        [(0, [Time 1704067200000000000, Str ''X'', Str ''positive'', Str ''NY'',
              NumV (IntV 5), Str ''text'']),
         (1, [Time 1704153600000000000, Str ''X'', Str ''nan'', Str ''LA'',
              NumV (IntV 7), Str ''image''])])
   \<and> argsort_ok (argsort sample_pandas)
   \<and> (1::nat) < length (rows unlabelled_upload)
   \<and> cell_of (map normalize_col (columns unlabelled_upload)) ''sentiment''
        (rows unlabelled_upload ! 1) = NaN
   \<and> to_datetime sample_pandas
        (cell_of (map normalize_col (columns unlabelled_upload)) ''date''
           (rows unlabelled_upload ! 1)) \<noteq> None
   \<and> missing_to_str sample_pandas = Some ''nan''
   \<and> (\<exists>t agg. clean_data sample_pandas unlabelled_upload = Inr (Some t)
          \<and> sentiment_counts sample_pandas t = Inr agg \<and> Str ''nan'' \<in> fst ` set agg)"
proof -
  have h1: "clean_frame sample_pandas unlabelled_upload
     = Inr (Some
        [(0, [Time 1704067200000000000, Str ''X'', Str ''positive'', Str ''NY'',
              NumV (IntV 5), Str ''text'']),
         (1, [Time 1704153600000000000, Str ''X'', Str ''nan'', Str ''LA'',
              NumV (IntV 7), Str ''image''])])"
    by code_simp
  have h3: "(1::nat) < length (rows unlabelled_upload)"
    by code_simp
  have h4: "cell_of (map normalize_col (columns unlabelled_upload)) ''sentiment''
        (rows unlabelled_upload ! 1) = NaN"
    by code_simp
  have h5: "to_datetime sample_pandas
        (cell_of (map normalize_col (columns unlabelled_upload)) ''date''
           (rows unlabelled_upload ! 1)) \<noteq> None"
    by code_simp
  have h6: "missing_to_str sample_pandas = Some ''nan''"
    by (simp add: sample_pandas_def)
  have "\<exists>t agg. clean_data sample_pandas unlabelled_upload = Inr (Some t)
          \<and> sentiment_counts sample_pandas t = Inr agg \<and> Str (lower ''nan'') \<in> fst ` set agg"
    using C10_missing_sentiment [OF h1 sample_pandas_ok h3 h4 h5] h6 by blast
  then have h7: "\<exists>t agg. clean_data sample_pandas unlabelled_upload = Inr (Some t)
          \<and> sentiment_counts sample_pandas t = Inr agg \<and> Str ''nan'' \<in> fst ` set agg"
    by (simp only: lower_nan)
  show ?thesis
    by (intro conjI) (fact h1 sample_pandas_ok h3 h4 h5 h6 h7)+
qed

text \<open>
  Where the library leaves a missing value missing, as pandas 3 does, the sentiment of
  the second row stays missing and the breakdown has no key \<open>nan\<close>.
\<close>

theorem C10_missing_stays_missing_counterexample:
  "clean_frame sample_pandas_3 unlabelled_upload
     = Inr (Some
        [(0, [Time 1704067200000000000, Str ''X'', Str ''positive'', Str ''NY'',
              NumV (IntV 5), Str ''text'']),
         (1, [Time 1704153600000000000, Str ''X'', NaN, Str ''LA'',
              NumV (IntV 7), Str ''image''])])
   \<and> sentiment_counts sample_pandas_3 \<lparr>columns = canonical, rows =
        [[Time 1704067200000000000, Str ''X'', Str ''positive'', Str ''NY'',
            NumV (IntV 5), Str ''text''],
         [Time 1704153600000000000, Str ''X'', NaN, Str ''LA'',
            NumV (IntV 7), Str ''image'']]\<rparr> = Inr [(Str ''positive'', 1)]
   \<and> Str ''nan'' \<notin> fst ` set [(Str ''positive'', 1 :: int)]"
  by code_simp

section \<open>Sums by platform and by location\<close>

lemma engagements_by_Inr:
  assumes "engagements_by L t name = Inr agg"
  shows "agg = sort_values_desc L (groupby_sum cell_rank
     (map (\<lambda>r. (cell_of (columns t) name r, int_of_cell (cell_of (columns t) ''engagements'' r)))
        (filter (\<lambda>r. cell_of (columns t) name r \<noteq> NaN) (rows t))))"
  using assms
  by (auto simp: engagements_by_def cell_of_def split: sum.splits dest!: series_pos_Inr)

lemma group_total:
  assumes "k \<noteq> NaN"
  shows "sum_list (map snd (filter (\<lambda>kv. fst kv = k)
       (map (\<lambda>r. (key r, val r)) (filter (\<lambda>r. key r \<noteq> NaN) rs))))
     = sum_list (map val (filter (\<lambda>r. key r = k) rs))"
proof -
  have "filter (\<lambda>r. key r = k) (filter (\<lambda>r. key r \<noteq> NaN) rs) = filter (\<lambda>r. key r = k) rs"
    using assms by (auto intro: filter_cong)
  then show ?thesis
    by (simp add: filter_map comp_def)
qed

text \<open>The sums by a label column, largest first.\<close>

lemma engagements_by_props:
  assumes "engagements_by L t name = Inr agg" and "argsort_ok (argsort L)"
  shows "sorted (rev (map snd agg))"
    and "distinct (map fst agg)"
    and "fst ` set agg = {c \<in> (\<lambda>r. cell_of (columns t) name r) ` set (rows t). c \<noteq> NaN}"
    and "\<forall>kv \<in> set agg. snd kv
         = wrap64 (sum_list (map (\<lambda>r. int_of_cell (cell_of (columns t) ''engagements'' r))
             (filter (\<lambda>r. cell_of (columns t) name r = fst kv) (rows t))))"
proof -
  let ?key = "\<lambda>r. cell_of (columns t) name r"
  let ?val = "\<lambda>r. int_of_cell (cell_of (columns t) ''engagements'' r)"
  let ?kvs = "map (\<lambda>r. (?key r, ?val r)) (filter (\<lambda>r. ?key r \<noteq> NaN) (rows t))"
  let ?g = "groupby_sum cell_rank ?kvs"
  have agg: "agg = sort_values_desc L ?g"
    using assms(1) by (rule engagements_by_Inr)
  show "sorted (rev (map snd agg))"
    unfolding agg using assms(2) by (rule sort_values_desc_sorted)
  show "distinct (map fst agg)"
    unfolding agg using assms(2) groupby_sum_distinct by (rule sort_values_desc_distinct)
  have s: "set agg = set ?g"
    unfolding agg using assms(2) by (rule sort_values_desc_set)
  have keys: "fst ` set ?g = {c \<in> ?key ` set (rows t). c \<noteq> NaN}"
    unfolding groupby_sum_set_keys by (auto simp: image_iff)
  show "fst ` set agg = {c \<in> ?key ` set (rows t). c \<noteq> NaN}"
    using keys by (simp only: s)
  show "\<forall>kv \<in> set agg.
      snd kv = wrap64 (sum_list (map ?val (filter (\<lambda>r. ?key r = fst kv) (rows t))))"
  proof
    fix kv assume "kv \<in> set agg"
    then have mem: "(fst kv, snd kv) \<in> set ?g"
      using s by simp
    then have "fst kv \<in> fst ` set ?g"
      by (rule image_eqI [rotated]) simp
    then have "fst kv \<noteq> NaN"
      unfolding keys by simp
    then have "sum_list (map snd (filter (\<lambda>x. fst x = fst kv) ?kvs))
        = sum_list (map ?val (filter (\<lambda>r. ?key r = fst kv) (rows t)))"
      by (rule group_total)
    then show "snd kv = wrap64 (sum_list (map ?val (filter (\<lambda>r. ?key r = fst kv) (rows t))))"
      using groupby_sum_value [OF mem] by (simp only:)
  qed
qed

text \<open>
  C7, as the code has it. On a cleaned table the top locations, as drawn in the chart and
  as put into the prompt, are at most five entries, one for each location listed, each
  with the 64-bit sum of the engagements of the rows of that location, in descending
  order of the sums; the locations of the table that are not listed have no larger sum
  than a listed one. Nothing is said about locations with equal sums.
\<close>

theorem C7_top_locations:
  assumes "clean_data L df = Inr (Some t)" and "argsort_ok (argsort L)"
    and "create_top_locations_chart L t = Inr agg"
  shows "length agg \<le> 5
     \<and> sorted (rev (map snd agg))
     \<and> distinct (map fst agg)
     \<and> (\<forall>kv \<in> set agg. snd kv
          = wrap64 (sum_list (map (\<lambda>r. int_of_cell (cell_of (columns t) ''engagements'' r))
              (filter (\<lambda>r. cell_of (columns t) ''location'' r = fst kv) (rows t)))))
     \<and> top_locations L t = Inr agg
     \<and> (\<exists>rest. engagements_by L t ''location'' = Inr (agg @ rest)
          \<and> (length agg < 5 \<longrightarrow> rest = [])
          \<and> (\<forall>a \<in> set agg. \<forall>b \<in> set rest. snd b \<le> snd a)
          \<and> fst ` set (agg @ rest)
              = {c \<in> (\<lambda>r. cell_of (columns t) ''location'' r) ` set (rows t). c \<noteq> NaN})"
proof -
  obtain full where full: "engagements_by L t ''location'' = Inr full"
    and agg: "agg = take 5 full"
    using assms(3)
    by (auto simp: create_top_locations_chart_def head5_def split: sum.splits)
  note p = engagements_by_props [OF full assms(2)]
  have 1: "length agg \<le> 5"
    by (simp add: agg)
  have 2: "sorted (rev (map snd agg))"
    unfolding agg using p(1) by (rule take_descending(1))
  have 3: "distinct (map fst agg)"
    unfolding agg using p(2) by (simp add: take_map [symmetric])
  have 4: "\<forall>kv \<in> set agg. snd kv
          = wrap64 (sum_list (map (\<lambda>r. int_of_cell (cell_of (columns t) ''engagements'' r))
              (filter (\<lambda>r. cell_of (columns t) ''location'' r = fst kv) (rows t))))"
  proof
    fix kv assume "kv \<in> set agg"
    then have "kv \<in> set full"
      unfolding agg by (rule in_set_takeD)
    then show "snd kv
          = wrap64 (sum_list (map (\<lambda>r. int_of_cell (cell_of (columns t) ''engagements'' r))
              (filter (\<lambda>r. cell_of (columns t) ''location'' r = fst kv) (rows t))))"
      by (rule bspec [OF p(4)])
  qed
  have 5: "top_locations L t = Inr agg"
    by (simp add: top_locations_def head5_def full agg)
  have r1: "engagements_by L t ''location'' = Inr (agg @ drop 5 full)"
    by (simp add: full agg)
  have r2: "length agg < 5 \<longrightarrow> drop 5 full = []"
    by (auto simp: agg)
  have r3: "\<forall>a \<in> set agg. \<forall>b \<in> set (drop 5 full). snd b \<le> snd a"
    unfolding agg using p(1) by (rule take_descending(2))
  have r4: "fst ` set (agg @ drop 5 full)
      = {c \<in> (\<lambda>r. cell_of (columns t) ''location'' r) ` set (rows t). c \<noteq> NaN}"
    using p(3) by (simp only: agg append_take_drop_id)
  have 6: "\<exists>rest. engagements_by L t ''location'' = Inr (agg @ rest)
          \<and> (length agg < 5 \<longrightarrow> rest = [])
          \<and> (\<forall>a \<in> set agg. \<forall>b \<in> set rest. snd b \<le> snd a)
          \<and> fst ` set (agg @ rest)
              = {c \<in> (\<lambda>r. cell_of (columns t) ''location'' r) ` set (rows t). c \<noteq> NaN}"
    by (rule exI [of _ "drop 5 full"]) (intro conjI, (fact r1 r2 r3 r4)+)
  show ?thesis
    by (intro conjI) (fact 1 2 3 4 5 6)+
qed

theorem C7_top_locations_witness:
  "clean_data sample_pandas seven_locations_upload
     = Inr (Some \<lparr>columns = canonical, rows =
     [[Time 1704067200000000000, Str ''X'', Str ''positive'', Str ''L1'', NumV (IntV 3), Str ''text''],
      [Time 1704067200000000000, Str ''X'', Str ''positive'', Str ''L2'', NumV (IntV 9), Str ''text''],
      [Time 1704067200000000000, Str ''X'', Str ''positive'', Str ''L3'', NumV (IntV 1), Str ''text''],
      [Time 1704153600000000000, Str ''X'', Str ''positive'', Str ''L4'', NumV (IntV 7), Str ''text''],
      [Time 1704153600000000000, Str ''X'', Str ''positive'', Str ''L5'', NumV (IntV 2), Str ''text''],
      [Time 1704153600000000000, Str ''X'', Str ''positive'', Str ''L6'', NumV (IntV 8), Str ''text''],
      [Time 1704240000000000000, Str ''X'', Str ''positive'', Str ''L7'', NumV (IntV 5), Str ''text''],
      [Time 1704240000000000000, Str ''X'', Str ''positive'', Str ''L1'', NumV (IntV 3), Str ''text'']]\<rparr>)
   \<and> argsort_ok (argsort sample_pandas)
   \<and> create_top_locations_chart sample_pandas \<lparr>columns = canonical, rows =
     [[Time 1704067200000000000, Str ''X'', Str ''positive'', Str ''L1'', NumV (IntV 3), Str ''text''],
      [Time 1704067200000000000, Str ''X'', Str ''positive'', Str ''L2'', NumV (IntV 9), Str ''text''],
      [Time 1704067200000000000, Str ''X'', Str ''positive'', Str ''L3'', NumV (IntV 1), Str ''text''],
      [Time 1704153600000000000, Str ''X'', Str ''positive'', Str ''L4'', NumV (IntV 7), Str ''text''],
      [Time 1704153600000000000, Str ''X'', Str ''positive'', Str ''L5'', NumV (IntV 2), Str ''text''],
      [Time 1704153600000000000, Str ''X'', Str ''positive'', Str ''L6'', NumV (IntV 8), Str ''text''],
      [Time 1704240000000000000, Str ''X'', Str ''positive'', Str ''L7'', NumV (IntV 5), Str ''text''],
      [Time 1704240000000000000, Str ''X'', Str ''positive'', Str ''L1'', NumV (IntV 3), Str ''text'']]\<rparr>
     = Inr [(Str ''L2'', 9), (Str ''L6'', 8), (Str ''L4'', 7), (Str ''L1'', 6), (Str ''L7'', 5)]
   \<and> top_locations sample_pandas \<lparr>columns = canonical, rows =
     [[Time 1704067200000000000, Str ''X'', Str ''positive'', Str ''L1'', NumV (IntV 3), Str ''text''],
      [Time 1704067200000000000, Str ''X'', Str ''positive'', Str ''L2'', NumV (IntV 9), Str ''text''],
      [Time 1704067200000000000, Str ''X'', Str ''positive'', Str ''L3'', NumV (IntV 1), Str ''text''],
      [Time 1704153600000000000, Str ''X'', Str ''positive'', Str ''L4'', NumV (IntV 7), Str ''text''],
      [Time 1704153600000000000, Str ''X'', Str ''positive'', Str ''L5'', NumV (IntV 2), Str ''text''],
      [Time 1704153600000000000, Str ''X'', Str ''positive'', Str ''L6'', NumV (IntV 8), Str ''text''],
      [Time 1704240000000000000, Str ''X'', Str ''positive'', Str ''L7'', NumV (IntV 5), Str ''text''],
      [Time 1704240000000000000, Str ''X'', Str ''positive'', Str ''L1'', NumV (IntV 3), Str ''text'']]\<rparr>
     = Inr [(Str ''L2'', 9), (Str ''L6'', 8), (Str ''L4'', 7), (Str ''L1'', 6), (Str ''L7'', 5)]"
proof -
  let ?t = "\<lparr>columns = canonical, rows =
     [[Time 1704067200000000000, Str ''X'', Str ''positive'', Str ''L1'', NumV (IntV 3), Str ''text''],
      [Time 1704067200000000000, Str ''X'', Str ''positive'', Str ''L2'', NumV (IntV 9), Str ''text''],
      [Time 1704067200000000000, Str ''X'', Str ''positive'', Str ''L3'', NumV (IntV 1), Str ''text''],
      [Time 1704153600000000000, Str ''X'', Str ''positive'', Str ''L4'', NumV (IntV 7), Str ''text''],
      [Time 1704153600000000000, Str ''X'', Str ''positive'', Str ''L5'', NumV (IntV 2), Str ''text''],
      [Time 1704153600000000000, Str ''X'', Str ''positive'', Str ''L6'', NumV (IntV 8), Str ''text''],
      [Time 1704240000000000000, Str ''X'', Str ''positive'', Str ''L7'', NumV (IntV 5), Str ''text''],
      [Time 1704240000000000000, Str ''X'', Str ''positive'', Str ''L1'', NumV (IntV 3), Str ''text'']]\<rparr>"
  let ?agg = "[(Str ''L2'', 9 :: int), (Str ''L6'', 8), (Str ''L4'', 7), (Str ''L1'', 6),
     (Str ''L7'', 5)]"
  have h1: "clean_data sample_pandas seven_locations_upload = Inr (Some ?t)"
    by code_simp
  have h3: "create_top_locations_chart sample_pandas ?t = Inr ?agg"
    by code_simp
  have h4: "top_locations sample_pandas ?t = Inr ?agg"
    using C7_top_locations [OF h1 sample_pandas_ok h3] by (elim conjE)
  show ?thesis
    by (intro conjI) (fact h1 sample_pandas_ok h3 h4)+
qed

text \<open>
  Location B is met first in the table, A second, and both total 5: the groups are
  listed by their keys and an index sort that keeps equal keys in place puts A first.
\<close>

theorem C7_tied_locations_counterexample:
  "clean_data sample_pandas tied_upload
     = Inr (Some \<lparr>columns = canonical, rows =
        [[Time 1704067200000000000, Str ''X'', Str ''positive'', Str ''B'',
            NumV (IntV 5), Str ''text''],
         [Time 1704153600000000000, Str ''X'', Str ''positive'', Str ''A'',
            NumV (IntV 5), Str ''text'']]\<rparr>)
   \<and> create_top_locations_chart sample_pandas \<lparr>columns = canonical, rows =
        [[Time 1704067200000000000, Str ''X'', Str ''positive'', Str ''B'',
            NumV (IntV 5), Str ''text''],
         [Time 1704153600000000000, Str ''X'', Str ''positive'', Str ''A'',
            NumV (IntV 5), Str ''text'']]\<rparr> = Inr [(Str ''A'', 5), (Str ''B'', 5)]
   \<and> top_locations sample_pandas \<lparr>columns = canonical, rows =
        [[Time 1704067200000000000, Str ''X'', Str ''positive'', Str ''B'',
            NumV (IntV 5), Str ''text''],
         [Time 1704153600000000000, Str ''X'', Str ''positive'', Str ''A'',
            NumV (IntV 5), Str ''text'']]\<rparr> = Inr [(Str ''A'', 5), (Str ''B'', 5)]"
  by code_simp

text \<open>
  What the platform chart and the platform prompt are made from: the chart table has one
  entry for each platform that occurs in the table, whatever their number, each with the
  64-bit sum of the engagements of its rows, in descending order of the sums; the
  dictionary of the prompt is the first five of these entries, and no platform left out
  has a larger sum than one that is in.
\<close>

lemma platform_tables:
  assumes "clean_data L df = Inr (Some t)" and "argsort_ok (argsort L)"
    and "create_platform_engagements_chart L t = Inr chart"
  shows "fst ` set chart = {c \<in> (\<lambda>r. cell_of (columns t) ''platform'' r) ` set (rows t). c \<noteq> NaN}"
    and "distinct (map fst chart)"
    and "sorted (rev (map snd chart))"
    and "\<forall>kv \<in> set chart. snd kv
          = wrap64 (sum_list (map (\<lambda>r. int_of_cell (cell_of (columns t) ''engagements'' r))
              (filter (\<lambda>r. cell_of (columns t) ''platform'' r = fst kv) (rows t))))"
    and "platform_engagements L t = Inr (take 5 chart)"
    and "\<forall>a \<in> set (take 5 chart). \<forall>b \<in> set (drop 5 chart). snd b \<le> snd a"
proof -
  have full: "engagements_by L t ''platform'' = Inr chart"
    using assms(3) by (simp add: create_platform_engagements_chart_def)
  note p = engagements_by_props [OF full assms(2)]
  show "fst ` set chart = {c \<in> (\<lambda>r. cell_of (columns t) ''platform'' r) ` set (rows t). c \<noteq> NaN}"
    by (fact p(3))
  show "distinct (map fst chart)"
    by (fact p(2))
  show "sorted (rev (map snd chart))"
    by (fact p(1))
  show "\<forall>kv \<in> set chart. snd kv
          = wrap64 (sum_list (map (\<lambda>r. int_of_cell (cell_of (columns t) ''engagements'' r))
              (filter (\<lambda>r. cell_of (columns t) ''platform'' r = fst kv) (rows t))))"
    by (fact p(4))
  show "platform_engagements L t = Inr (take 5 chart)"
    by (simp add: platform_engagements_def head5_def full)
  show "\<forall>a \<in> set (take 5 chart). \<forall>b \<in> set (drop 5 chart). snd b \<le> snd a"
    using p(1) by (rule take_descending(2))
qed

text \<open>
  C8. On the upload with six platforms the page draws the sentiment chart, sends the
  sentiment prompt, draws the trend chart and ends with the \<open>KeyError\<close> of line 341:
  the platform chart is not drawn and the platform prompt is not sent, though the tables
  for them would be the six platforms and the first five of them.
\<close>

theorem C8_page_ends_before_platforms:
  "main sample_pandas six_platforms_upload
     = [Plot (Pie ''Sentiment Breakdown'' [(Str ''positive'', 6)]),
        Gemini (sentiment_prompt [(Str ''positive'', 6)]),
        Plot (Line ''Engagement Trend Over Time'' [(19723, 10), (19724, 11)]),
        Failed (KeyError ''Total Engagements'')]
   \<and> create_platform_engagements_chart sample_pandas \<lparr>columns = canonical, rows =
     [[Time 1704067200000000000, Str ''P1'', Str ''positive'', Str ''NY'', NumV (IntV 1), Str ''text''],
      [Time 1704067200000000000, Str ''P2'', Str ''positive'', Str ''NY'', NumV (IntV 6), Str ''text''],
      [Time 1704067200000000000, Str ''P3'', Str ''positive'', Str ''NY'', NumV (IntV 3), Str ''text''],
      [Time 1704153600000000000, Str ''P4'', Str ''positive'', Str ''NY'', NumV (IntV 4), Str ''text''],
      [Time 1704153600000000000, Str ''P5'', Str ''positive'', Str ''NY'', NumV (IntV 5), Str ''text''],
      [Time 1704153600000000000, Str ''P6'', Str ''positive'', Str ''NY'', NumV (IntV 2), Str ''text'']]\<rparr>
     = Inr [(Str ''P2'', 6), (Str ''P5'', 5), (Str ''P4'', 4), (Str ''P3'', 3), (Str ''P6'', 2),
         (Str ''P1'', 1)]
   \<and> platform_engagements sample_pandas \<lparr>columns = canonical, rows =
     [[Time 1704067200000000000, Str ''P1'', Str ''positive'', Str ''NY'', NumV (IntV 1), Str ''text''],
      [Time 1704067200000000000, Str ''P2'', Str ''positive'', Str ''NY'', NumV (IntV 6), Str ''text''],
      [Time 1704067200000000000, Str ''P3'', Str ''positive'', Str ''NY'', NumV (IntV 3), Str ''text''],
      [Time 1704153600000000000, Str ''P4'', Str ''positive'', Str ''NY'', NumV (IntV 4), Str ''text''],
      [Time 1704153600000000000, Str ''P5'', Str ''positive'', Str ''NY'', NumV (IntV 5), Str ''text''],
      [Time 1704153600000000000, Str ''P6'', Str ''positive'', Str ''NY'', NumV (IntV 2), Str ''text'']]\<rparr>
     = Inr [(Str ''P2'', 6), (Str ''P5'', 5), (Str ''P4'', 4), (Str ''P3'', 3), (Str ''P6'', 2)]"
  by code_simp

section \<open>The page on an empty table and on a table with rows\<close>

lemma counts_of_empty:
  assumes "count_list (columns t) name = 1" and "rows t = []" and "argsort_ok (argsort L)"
  shows "counts_of L t name = Inr []"
  by (simp add: counts_of_def column_values_def series_pos_one [OF assms(1)] assms(2)
      value_counts_Nil [OF assms(3)])

lemma engagements_by_empty:
  assumes "count_list (columns t) name = 1" and "count_list (columns t) ''engagements'' = 1"
    and "rows t = []" and "argsort_ok (argsort L)"
  shows "engagements_by L t name = Inr []"
  by (simp add: engagements_by_def series_pos_one [OF assms(1)] series_pos_one [OF assms(2)]
      assms(3) groupby_sum_Nil sort_values_desc_Nil [OF assms(4)])

lemma engagement_by_date_empty:
  assumes "count_list (columns t) ''date'' = 1" and "count_list (columns t) ''engagements'' = 1"
    and "rows t = []"
  shows "engagement_by_date t = Inr []"
  by (simp add: engagement_by_date_def series_pos_one [OF assms(1)] series_pos_one [OF assms(2)]
      assms(3) groupby_sum_Nil)

lemma cleaned_counts:
  assumes "clean_data L df = Inr (Some t)" and "argsort_ok (argsort L)"
  shows "count_list (columns t) ''date'' = 1"
    and "count_list (columns t) ''engagements'' = 1"
    and "count_list (columns t) ''sentiment'' = 1"
proof -
  obtain irs where n: "normalized_rows L df = Inr (Some irs)"
    and c: "columns t = map normalize_col (columns df)"
    using assms by (rule cleaned_table)
  show "count_list (columns t) ''date'' = 1"
    unfolding c by (rule normalized_series(1) [OF n])
  show "count_list (columns t) ''engagements'' = 1"
    unfolding c by (rule normalized_series(2) [OF n])
  show "count_list (columns t) ''sentiment'' = 1"
    unfolding c by (rule normalized_series(3) [OF n])
qed

text \<open>
  C6, as the code has it. When no row is left in the cleaned table and the labels
  \<open>platform\<close>, \<open>location\<close> and \<open>media_type\<close> each head one column, the page runs
  to its end without an exception: five charts without entries and five prompts, of which
  the trend prompt is the generic one and the other four are the usual text around an
  empty dictionary.
\<close>

theorem C6_empty_table_prompts:
  assumes "clean_data L df = Inr (Some t)" and "argsort_ok (argsort L)" and "rows t = []"
    and "count_list (columns t) ''platform'' = 1"
    and "count_list (columns t) ''location'' = 1"
    and "count_list (columns t) ''media_type'' = 1"
  shows "main L df =
     [Plot (Pie ''Sentiment Breakdown'' []), Gemini (sentiment_prompt []),
      Plot (Line ''Engagement Trend Over Time'' []), Gemini fallback_prompt,
      Plot (Bar ''Platform Engagements'' []), Gemini (platform_prompt []),
      Plot (Pie ''Media Type Mix'' []), Gemini (media_type_prompt []),
      Plot (Bar ''Top 5 Locations by Engagements'' []), Gemini (location_prompt [])]"
proof -
  note c = cleaned_counts [OF assms(1,2)]
  have s: "counts_of L t ''sentiment'' = Inr []"
    using c(3) assms(3,2) by (rule counts_of_empty)
  have m: "counts_of L t ''media_type'' = Inr []"
    using assms(6,3,2) by (rule counts_of_empty)
  have p: "engagements_by L t ''platform'' = Inr []"
    using assms(4) c(2) assms(3,2) by (rule engagements_by_empty)
  have l: "engagements_by L t ''location'' = Inr []"
    using assms(5) c(2) assms(3,2) by (rule engagements_by_empty)
  have d: "engagement_by_date t = Inr []"
    using c(1,2) assms(3) by (rule engagement_by_date_empty)
  have "sections L t =
     [Inr (Plot (Pie ''Sentiment Breakdown'' [])), Inr (Gemini (sentiment_prompt [])),
      Inr (Plot (Line ''Engagement Trend Over Time'' [])), Inr (Gemini fallback_prompt),
      Inr (Plot (Bar ''Platform Engagements'' [])), Inr (Gemini (platform_prompt [])),
      Inr (Plot (Pie ''Media Type Mix'' [])), Inr (Gemini (media_type_prompt [])),
      Inr (Plot (Bar ''Top 5 Locations by Engagements'' [])), Inr (Gemini (location_prompt []))]"
    by (simp add: sections_def step_def create_sentiment_chart_def sentiment_counts_def
        create_engagement_trend_chart_def trend_prompt_def create_platform_engagements_chart_def
        platform_engagements_def create_media_type_mix_chart_def media_type_counts_def
        create_top_locations_chart_def top_locations_def head5_def s m p l d)
  then show ?thesis
    by (simp add: main_def assms(1))
qed

theorem C6_empty_table_prompts_witness:
  "clean_data sample_pandas empty_upload = Inr (Some \<lparr>columns = canonical, rows = []\<rparr>)
   \<and> argsort_ok (argsort sample_pandas)
   \<and> rows \<lparr>columns = canonical, rows = []\<rparr> = []
   \<and> count_list (columns \<lparr>columns = canonical, rows = []\<rparr>) ''platform'' = 1
   \<and> count_list (columns \<lparr>columns = canonical, rows = []\<rparr>) ''location'' = 1
   \<and> count_list (columns \<lparr>columns = canonical, rows = []\<rparr>) ''media_type'' = 1
   \<and> main sample_pandas empty_upload =
     [Plot (Pie ''Sentiment Breakdown'' []), Gemini (sentiment_prompt []),
      Plot (Line ''Engagement Trend Over Time'' []), Gemini fallback_prompt,
      Plot (Bar ''Platform Engagements'' []), Gemini (platform_prompt []),
      Plot (Pie ''Media Type Mix'' []), Gemini (media_type_prompt []),
      Plot (Bar ''Top 5 Locations by Engagements'' []), Gemini (location_prompt [])]"
proof -
  let ?t = "\<lparr>columns = canonical, rows = []\<rparr>"
  have h1: "clean_data sample_pandas empty_upload = Inr (Some ?t)"
    by code_simp
  have h3: "rows ?t = []"
    by simp
  have h4: "count_list (columns ?t) ''platform'' = 1"
    by code_simp
  have h5: "count_list (columns ?t) ''location'' = 1"
    by code_simp
  have h6: "count_list (columns ?t) ''media_type'' = 1"
    by code_simp
  show ?thesis
    by (intro conjI)
      (fact h1 sample_pandas_ok h3 h4 h5 h6
        C6_empty_table_prompts [OF h1 sample_pandas_ok h3 h4 h5 h6])+
qed

text \<open>
  The five prompts for an upload of a header and no row: only the second is the generic
  prompt, the sentiment prompt holds the empty dictionary.
\<close>

theorem C6_empty_dictionary_counterexample:
  "prompts (main sample_pandas empty_upload)
     = [[Text ''Based on the following sentiment counts from media data: '', Dict [],
         Text ''. Provide top 3 concise insights.''],
        fallback_prompt,
        [Text ''Based on platform engagements: '', Dict [],
         Text ''. Provide top 3 concise insights.''],
        [Text ''Based on media type counts: '', Dict [],
         Text ''. Provide top 3 concise insights.''],
        [Text ''Based on top 5 locations by engagement: '', Dict [],
         Text ''. Provide top 3 concise insights.'']]
   \<and> [Text ''Based on the following sentiment counts from media data: '', Dict [],
         Text ''. Provide top 3 concise insights.''] \<noteq> fallback_prompt"
  by code_simp

text \<open>
  On a table with a row the page ends at the trend prompt: the sentiment chart, the
  sentiment prompt and the trend chart are followed by the \<open>KeyError\<close> of line 341.
\<close>

lemma main_stops_at_trend:
  assumes "clean_data L df = Inr (Some t)" and "argsort_ok (argsort L)" and "rows t \<noteq> []"
  shows "\<exists>counts trend. main L df =
     [Plot (Pie ''Sentiment Breakdown'' counts), Gemini (sentiment_prompt counts),
      Plot (Line ''Engagement Trend Over Time'' trend), Failed (KeyError ''Total Engagements'')]"
proof -
  note c = cleaned_counts [OF assms(1,2)]
  let ?d = "index_of ''date'' (columns t)"
  let ?g = "index_of ''engagements'' (columns t)"
  let ?kvs = "map (\<lambda>r. (day_of (time_of (cell_at r ?d)), int_of_cell (cell_at r ?g)))
     (filter (\<lambda>r. cell_at r ?d \<noteq> NaN) (rows t))"
  have "\<forall>r \<in> set (rows t). cell_at r ?d \<noteq> NaN"
    using cleaned_cells(1) [OF assms(1,2)] by (fastforce simp: cell_of_def)
  then have "filter (\<lambda>r. cell_at r ?d \<noteq> NaN) (rows t) = rows t"
    by (simp only: filter_True)
  then have "?kvs \<noteq> []"
    using assms(3) by simp
  then have ne: "groupby_sum (\<lambda>k. k) ?kvs \<noteq> []"
    by (rule groupby_sum_not_Nil)
  have d: "engagement_by_date t = Inr (groupby_sum (\<lambda>k. k) ?kvs)"
    by (simp add: engagement_by_date_def series_pos_one [OF c(1)] series_pos_one [OF c(2)])
  have tp: "trend_prompt t = Inl (KeyError ''Total Engagements'')"
    unfolding trend_prompt_def d using ne by simp
  obtain counts where s: "counts_of L t ''sentiment'' = Inr counts"
    using cleaned_sentiment_counts [OF assms(1,2)] by blast
  have "run_steps (sections L t) =
     [Plot (Pie ''Sentiment Breakdown'' counts), Gemini (sentiment_prompt counts),
      Plot (Line ''Engagement Trend Over Time'' (groupby_sum (\<lambda>k. k) ?kvs)),
      Failed (KeyError ''Total Engagements'')]"
    by (simp add: sections_def step_def create_sentiment_chart_def sentiment_counts_def
        create_engagement_trend_chart_def s d tp)
  then show ?thesis
    by (simp add: main_def assms(1))
qed

end
